theory Spec2Isabelle
  imports Main
begin

section \<open>Scope frames and the scope stack engine\<close>

text \<open>
  The development follows \<^verbatim>\<open>lib/scope/scope.js\<close>, \<^verbatim>\<open>lib/scope/scope-manager.js\<close>,
  \<^verbatim>\<open>lib/scope/count-scope-manager.js\<close> and \<^verbatim>\<open>lib/scope/presence-scope-manager.js\<close>.

  A thrown JavaScript \<^verbatim>\<open>Error\<close> is a value of type \<open>error\<close>; every method that can
  throw returns \<open>error + 'a\<close> with \<open>Inl\<close> for the exception. \<open>TypeError\<close> is what the
  runtime raises when a property of \<^verbatim>\<open>undefined\<close> is read, and \<open>NodeMustBeProvided\<close> is
  the error with which \<^verbatim>\<open>context.report\<close> of the linter refuses a problem that has
  neither a node nor a location.
\<close>

datatype error =
    AboutToBePopped
  | ExpectedCatchOnTop
  | ExpectedTryOnTop
  | ExpectedIdentifier
  | NotInScopeStack
  | TypeError
  | NodeMustBeProvided

definition bindE :: "error + 'a \<Rightarrow> ('a \<Rightarrow> error + 'b) \<Rightarrow> error + 'b" where
  "bindE r f = (case r of Inl e \<Rightarrow> Inl e | Inr x \<Rightarrow> f x)"

text \<open>\<^verbatim>\<open>String.prototype.includes\<close>: the argument occurs as a contiguous substring.\<close>

fun str_includes :: "string \<Rightarrow> string \<Rightarrow> bool" where
  "str_includes [] sub = (sub = [])"
| "str_includes (c # s) sub = (take (length sub) (c # s) = sub \<or> str_includes s sub)"

text \<open>
  What the scope managers read of a syntax-tree node: its \<^verbatim>\<open>type\<close>, and whether it has an
  \<^verbatim>\<open>alternate\<close> child. Nodes are objects compared by identity (\<^verbatim>\<open>===\<close>), so every
  node carries an identifier and \<open>alternate\<close> holds the identifier of the child.
\<close>

record astNode =
  nodeId :: nat
  nodeType :: string
  alternate :: "nat option"

text \<open>The \<^verbatim>\<open>Scope\<close> class of \<^verbatim>\<open>scope.js\<close>; \<open>'m\<close> is the type of the metadata.\<close>

record 'm Scope =
  event :: string
  metadata :: 'm
  lastViolatingNode :: "astNode option"
  hasReturnStatement :: bool

text \<open>
  The manager object. \<open>scopeStack\<close> is the array \<^verbatim>\<open>_scopeStack\<close>, the last element being
  the top. \<open>reporterCalls\<close> records the calls of the reporter callback: the argument passed
  and the current scope as the callback sees it at that moment.
\<close>

record 'm ScopeManager =
  scopeStack :: "'m Scope list"
  reporterCalls :: "(astNode option \<times> 'm Scope option) list"

text \<open>\<^verbatim>\<open>lodash.last\<close> of an empty array is \<^verbatim>\<open>undefined\<close>.\<close>

definition currentScope :: "'m ScopeManager \<Rightarrow> 'm Scope option" where
  "currentScope m = (if scopeStack m = [] then None else Some (last (scopeStack m)))"

definition invariant :: "'m ScopeManager \<Rightarrow> error + unit" where
  "invariant m =
     (case currentScope m of
        None \<Rightarrow> Inl AboutToBePopped
      | Some s \<Rightarrow> if event s = ''Sentinel'' then Inl AboutToBePopped else Inr ())"

definition exitScope :: "'m ScopeManager \<Rightarrow> error + 'm ScopeManager" where
  "exitScope m =
     bindE (invariant m) (\<lambda>_. Inr (m\<lparr>scopeStack := butlast (scopeStack m)\<rparr>))"

text \<open>\<^verbatim>\<open>Object.assign(this.currentScope(), {...})\<close>: the top frame is updated in place.\<close>

definition assignCurrent ::
  "('m Scope \<Rightarrow> 'm Scope) \<Rightarrow> 'm ScopeManager \<Rightarrow> error + 'm ScopeManager" where
  "assignCurrent f m =
     (case currentScope m of
        None \<Rightarrow> Inl TypeError
      | Some s \<Rightarrow> Inr (m\<lparr>scopeStack := butlast (scopeStack m) @ [f s]\<rparr>))"

text \<open>
  The reporter callback \<^verbatim>\<open>reporterFn\<close> is given to the constructor by the rule and kept in
  \<^verbatim>\<open>_reporterFn\<close>. It is a function of the rule: it reads the manager, and it throws when
  the rule's code throws. \<open>reporterFn callback arg\<close> is the call
  \<^verbatim>\<open>this._reporterFn(arg)\<close> of a manager constructed with \<open>callback\<close>: the call is
  recorded, and its outcome is the outcome of the callback.
\<close>

type_synonym 'm reporter = "astNode option \<Rightarrow> 'm ScopeManager \<Rightarrow> error + 'm ScopeManager"

definition reporterFn ::
  "'m reporter \<Rightarrow> astNode option \<Rightarrow> 'm ScopeManager \<Rightarrow> error + 'm ScopeManager" where
  "reporterFn callback arg m =
     callback arg (m\<lparr>reporterCalls := reporterCalls m @ [(arg, currentScope m)]\<rparr>)"

text \<open>
  \<^verbatim>\<open>_getElseScopeIfAny\<close> is written identically in both subclasses: the frame on top is
  taken for the frame of the alternate when the node has an alternate and that frame carries
  an \<^verbatim>\<open>IfStatement\<close> label.
\<close>

definition getElseScopeIfAny ::
  "astNode \<Rightarrow> 'm ScopeManager \<Rightarrow> error + ('m Scope option \<times> 'm ScopeManager)" where
  "getElseScopeIfAny ifStatementNode m =
     (case currentScope m of
        None \<Rightarrow> Inr (None, m)
      | Some s \<Rightarrow>
          if alternate ifStatementNode \<noteq> None \<and> str_includes (event s) ''IfStatement''
          then bindE (exitScope m) (\<lambda>m'. Inr (Some s, m'))
          else Inr (None, m))"

section \<open>The counting tracker\<close>

text \<open>
  Counts are JavaScript numbers that only ever hold integers (they start at 0 and change by
  integer additions, subtractions and maxima), modelled as \<open>int\<close>.
\<close>

definition count_createScopeObject :: "string \<Rightarrow> int Scope" where
  "count_createScopeObject ev =
     \<lparr>event = ev, metadata = 0, lastViolatingNode = None, hasReturnStatement = False\<rparr>"

definition count_new :: "int ScopeManager" where
  "count_new = \<lparr>scopeStack = [count_createScopeObject ''Sentinel''], reporterCalls = []\<rparr>"

definition count_enterScope :: "string \<Rightarrow> int ScopeManager \<Rightarrow> int ScopeManager" where
  "count_enterScope ev m = m\<lparr>scopeStack := scopeStack m @ [count_createScopeObject ev]\<rparr>"

text \<open>
  \<^verbatim>\<open>_isInsideIfElseStatement\<close>: the argument is what \<^verbatim>\<open>getAncestors()\<close> of the lint
  context returns at the time of the call.
\<close>

definition isInsideIfElseStatement :: "astNode list \<Rightarrow> astNode \<Rightarrow> error + bool" where
  "isInsideIfElseStatement ancestors ifStatementNode =
     (if ancestors = [] then Inl TypeError
      else Inr (alternate (last ancestors) = Some (nodeId ifStatementNode)))"

definition undoChangesIfThereIsReturnStatement ::
  "int Scope \<Rightarrow> int Scope option \<Rightarrow> int \<Rightarrow> int ScopeManager \<Rightarrow> error + int ScopeManager" where
  "undoChangesIfThereIsReturnStatement ifScope elseScope initialVal m =
     (if hasReturnStatement ifScope \<and>
         (case elseScope of None \<Rightarrow> False | Some e \<Rightarrow> hasReturnStatement e)
      then assignCurrent (\<lambda>s. s\<lparr>metadata := initialVal\<rparr>) m
      else if hasReturnStatement ifScope then
        (let ifScopeVal = metadata ifScope;
             elseScopeVal = (case elseScope of
                               None \<Rightarrow> 0
                             | Some e \<Rightarrow> if \<not> hasReturnStatement e then metadata e else 0)
         in assignCurrent (\<lambda>s. s\<lparr>metadata := metadata s - ifScopeVal + elseScopeVal\<rparr>) m)
      else if (case elseScope of None \<Rightarrow> False | Some e \<Rightarrow> hasReturnStatement e) then
        (let ifScopeVal = (if \<not> hasReturnStatement ifScope then metadata ifScope else 0);
             elseScopeVal = (case elseScope of None \<Rightarrow> 0 | Some e \<Rightarrow> metadata e)
         in assignCurrent (\<lambda>s. s\<lparr>metadata := metadata s - elseScopeVal + ifScopeVal\<rparr>) m)
      else Inr m)"

definition count_handleIfExit ::
  "int reporter \<Rightarrow> astNode list \<Rightarrow> astNode \<Rightarrow> int ScopeManager \<Rightarrow>
     error + int ScopeManager" where
  "count_handleIfExit callback ancestors ifStatement m =
     (case currentScope m of
        None \<Rightarrow> Inl TypeError
      | Some topScope \<Rightarrow>
          if \<not> str_includes (event topScope) ''IfStatement'' then Inr m
          else
            bindE (getElseScopeIfAny ifStatement m) (\<lambda>(elseScope, m1).
            case currentScope m1 of
              None \<Rightarrow> Inl AboutToBePopped
            | Some ifScope \<Rightarrow>
                bindE (exitScope m1) (\<lambda>m2.
                case currentScope m2 of
                  None \<Rightarrow> Inl TypeError
                | Some parent \<Rightarrow>
                    (let initialVal = metadata parent;
                         branches = max (metadata ifScope)
                                      (case elseScope of None \<Rightarrow> 0 | Some e \<Rightarrow> metadata e)
                     in
                     bindE (isInsideIfElseStatement ancestors ifStatement) (\<lambda>chained.
                     let newVal = (if chained then max initialVal branches
                                   else initialVal + branches)
                     in
                     bindE (assignCurrent (\<lambda>s. s\<lparr>metadata := newVal\<rparr>) m2) (\<lambda>m3.
                     bindE (if initialVal - newVal \<noteq> 0
                            then bindE (assignCurrent
                                          (\<lambda>s. s\<lparr>lastViolatingNode := Some ifStatement\<rparr>) m3)
                                   (reporterFn callback None)
                            else Inr m3) (\<lambda>m5.
                     undoChangesIfThereIsReturnStatement ifScope elseScope initialVal m5)))))))"

definition count_handleCatchExit ::
  "int reporter \<Rightarrow> astNode \<Rightarrow> int ScopeManager \<Rightarrow> error + int ScopeManager" where
  "count_handleCatchExit callback node m =
     (case currentScope m of
        None \<Rightarrow> Inl TypeError
      | Some catchScope \<Rightarrow>
          if \<not> str_includes (event catchScope) ''CatchClause'' then Inl ExpectedCatchOnTop
          else
            bindE (exitScope m) (\<lambda>m1.
            case currentScope m1 of
              None \<Rightarrow> Inl TypeError
            | Some tryScope \<Rightarrow>
                if \<not> str_includes (event tryScope) ''TryStatement'' then Inl ExpectedTryOnTop
                else
                  bindE (exitScope m1) (\<lambda>m2.
                  case currentScope m2 of
                    None \<Rightarrow> Inl TypeError
                  | Some parent \<Rightarrow>
                      bindE (assignCurrent
                               (\<lambda>s. s\<lparr>metadata := max (metadata parent)
                                        (max (metadata catchScope) (metadata tryScope))\<rparr>) m2)
                        (reporterFn callback None))))"

definition count_dispatchExit ::
  "int reporter \<Rightarrow> astNode list \<Rightarrow> astNode \<Rightarrow> int ScopeManager \<Rightarrow>
     error + int ScopeManager" where
  "count_dispatchExit callback ancestors node m =
     (if nodeType node = ''IfStatement'' then count_handleIfExit callback ancestors node m
      else if nodeType node = ''CatchClause'' then count_handleCatchExit callback node m
      else exitScope m)"

definition count_account ::
  "int reporter \<Rightarrow> astNode list \<Rightarrow> astNode \<Rightarrow> string \<Rightarrow> int ScopeManager \<Rightarrow>
     error + int ScopeManager" where
  "count_account callback ancestors node ev m =
     (if str_includes ev '':exit'' then count_dispatchExit callback ancestors node m
      else if ev = ''ReturnStatement''
        then assignCurrent (\<lambda>s. s\<lparr>hasReturnStatement := True\<rparr>) m
      else Inr (count_enterScope ev m))"

section \<open>The presence tracker\<close>

text \<open>
  \<^verbatim>\<open>isScopeInsideIntent(scope)\<close> looks the frame up with \<^verbatim>\<open>indexOf\<close>, which compares
  by identity; the frame is therefore given by the position \<^verbatim>\<open>indexOf\<close> finds
  (\<open>None\<close> for \<^verbatim>\<open>-1\<close>). Every push creates a fresh object, so the position of the current
  scope is the last one.
\<close>

definition isScopeInsideIntent :: "bool ScopeManager \<Rightarrow> nat option \<Rightarrow> error + bool" where
  "isScopeInsideIntent m pos =
     (if scopeStack m = [] then Inr False
      else case pos of
             None \<Rightarrow> Inl NotInScopeStack
           | Some p \<Rightarrow>
               Inr (length (filter (\<lambda>x. str_includes (event x) ''Intent'')
                              (take (p + 1) (scopeStack m))) > 0))"

definition indexOfCurrent :: "'m ScopeManager \<Rightarrow> nat option" where
  "indexOfCurrent m = (if scopeStack m = [] then None else Some (length (scopeStack m) - 1))"

definition presence_createScopeObject :: "bool ScopeManager \<Rightarrow> string \<Rightarrow> error + bool Scope" where
  "presence_createScopeObject m ev =
     bindE (isScopeInsideIntent m (indexOfCurrent m)) (\<lambda>inside.
       let isInsideIntent = (inside \<or> str_includes ev ''Intent'')
       in Inr \<lparr>event = ev, metadata = \<not> isInsideIntent, lastViolatingNode = None,
               hasReturnStatement = False\<rparr>)"

text \<open>The constructor builds the sentinel frame while the stack is still absent.\<close>

definition presence_new :: "error + bool ScopeManager" where
  "presence_new =
     bindE (presence_createScopeObject \<lparr>scopeStack = [], reporterCalls = []\<rparr> ''Sentinel'')
       (\<lambda>s. Inr \<lparr>scopeStack = [s], reporterCalls = []\<rparr>)"

definition presence_enterScope :: "string \<Rightarrow> bool ScopeManager \<Rightarrow> error + bool ScopeManager" where
  "presence_enterScope ev m =
     bindE (presence_createScopeObject m ev) (\<lambda>s. Inr (m\<lparr>scopeStack := scopeStack m @ [s]\<rparr>))"

definition presence_handleIfExit :: "astNode \<Rightarrow> bool ScopeManager \<Rightarrow> error + bool ScopeManager" where
  "presence_handleIfExit ifStatement m =
     (case currentScope m of
        None \<Rightarrow> Inl TypeError
      | Some topScope \<Rightarrow>
          if \<not> str_includes (event topScope) ''IfStatement'' then Inr m
          else
            bindE (getElseScopeIfAny ifStatement m) (\<lambda>(elseScope, m1).
            case currentScope m1 of
              None \<Rightarrow> Inl AboutToBePopped
            | Some ifScope \<Rightarrow>
                bindE (exitScope m1) (\<lambda>m2.
                case currentScope m2 of
                  None \<Rightarrow> Inl TypeError
                | Some parent \<Rightarrow>
                    assignCurrent
                      (\<lambda>s. s\<lparr>metadata := metadata parent \<or>
                                (if metadata ifScope \<and> elseScope \<noteq> None
                                 then (case elseScope of None \<Rightarrow> False | Some e \<Rightarrow> metadata e)
                                 else False)\<rparr>) m2)))"

definition presence_handleCatchExit :: "astNode \<Rightarrow> bool ScopeManager \<Rightarrow> error + bool ScopeManager" where
  "presence_handleCatchExit node m =
     (case currentScope m of
        None \<Rightarrow> Inl TypeError
      | Some catchScope \<Rightarrow>
          if \<not> str_includes (event catchScope) ''CatchClause'' then Inl ExpectedCatchOnTop
          else
            bindE (exitScope m) (\<lambda>m1.
            case currentScope m1 of
              None \<Rightarrow> Inl TypeError
            | Some tryScope \<Rightarrow>
                if \<not> str_includes (event tryScope) ''TryStatement'' then Inl ExpectedTryOnTop
                else
                  bindE (exitScope m1) (\<lambda>m2.
                  case currentScope m2 of
                    None \<Rightarrow> Inl TypeError
                  | Some parent \<Rightarrow>
                      assignCurrent
                        (\<lambda>s. s\<lparr>metadata := metadata parent \<or>
                                  (metadata catchScope \<and> metadata tryScope)\<rparr>) m2)))"

definition presence_handleIntentHandlerExit ::
  "bool reporter \<Rightarrow> astNode \<Rightarrow> bool ScopeManager \<Rightarrow> error + bool ScopeManager" where
  "presence_handleIntentHandlerExit callback potentialIntentHandlerNode m =
     (case currentScope m of
        None \<Rightarrow> Inl TypeError
      | Some s \<Rightarrow>
          bindE (if str_includes (event s) ''Intent''
                 then reporterFn callback (Some potentialIntentHandlerNode) m else Inr m)
            exitScope)"

definition presence_dispatchExit ::
  "bool reporter \<Rightarrow> astNode \<Rightarrow> bool ScopeManager \<Rightarrow> error + bool ScopeManager" where
  "presence_dispatchExit callback node m =
     (if nodeType node = ''IfStatement'' then presence_handleIfExit node m
      else if nodeType node = ''CatchClause'' then presence_handleCatchExit node m
      else if nodeType node = ''ArrowFunctionExpression'' \<or> nodeType node = ''FunctionExpression''
              \<or> nodeType node = ''FunctionDeclaration'' \<or> nodeType node = ''MethodDefinition''
        then presence_handleIntentHandlerExit callback node m
      else exitScope m)"

definition presence_account ::
  "bool reporter \<Rightarrow> astNode \<Rightarrow> string \<Rightarrow> bool ScopeManager \<Rightarrow> error + bool ScopeManager" where
  "presence_account callback node ev m =
     (if str_includes ev '':exit'' then presence_dispatchExit callback node m
      else if ev = ''ReturnStatement''
        then assignCurrent (\<lambda>s. s\<lparr>hasReturnStatement := True\<rparr>) m
      else presence_enterScope ev m)"

section \<open>Syntax-tree expressions and variable resolution\<close>

text \<open>
  The classifiers read the structure of a node. A node is an object with a \<^verbatim>\<open>type\<close> and
  the fields of that type; a field that a node does not have reads as \<^verbatim>\<open>undefined\<close>
  (\<open>None\<close>), and reading a property of \<^verbatim>\<open>undefined\<close> raises \<open>TypeError\<close>.
  The node types the classifiers distinguish have a constructor each; \<open>OtherNode t\<close> is a
  node of any other type \<open>t\<close>, none of whose fields is read.
\<close>

definition classifiedTypes :: "string list" where
  "classifiedTypes =
     [''Identifier'', ''Literal'', ''TemplateLiteral'', ''BinaryExpression'',
      ''CallExpression'', ''MemberExpression'', ''SpreadElement'', ''NewExpression'']"

typedef otherType = "{t :: string. t \<notin> set classifiedTypes}"
  by (rule exI [of _ "''Program''"]) (simp add: classifiedTypes_def)

datatype node =
    Identifier string
  | Literal
  | TemplateLiteral
  | BinaryExpression node node
  | CallExpression node "node list"
  | MemberExpression node node
  | SpreadElement node
  | NewExpression node "node list"
  | OtherNode otherType

fun ntype :: "node \<Rightarrow> string" where
  "ntype (Identifier n) = ''Identifier''"
| "ntype Literal = ''Literal''"
| "ntype TemplateLiteral = ''TemplateLiteral''"
| "ntype (BinaryExpression l r) = ''BinaryExpression''"
| "ntype (CallExpression c as) = ''CallExpression''"
| "ntype (MemberExpression ob p) = ''MemberExpression''"
| "ntype (SpreadElement a) = ''SpreadElement''"
| "ntype (NewExpression c as) = ''NewExpression''"
| "ntype (OtherNode t) = Rep_otherType t"

fun name :: "node \<Rightarrow> string option" where
  "name (Identifier n) = Some n"
| "name _ = None"

fun callee :: "node \<Rightarrow> node option" where
  "callee (CallExpression c as) = Some c"
| "callee (NewExpression c as) = Some c"
| "callee _ = None"

fun arguments :: "node \<Rightarrow> node list option" where
  "arguments (CallExpression c as) = Some as"
| "arguments (NewExpression c as) = Some as"
| "arguments _ = None"

fun object :: "node \<Rightarrow> node option" where
  "object (MemberExpression ob p) = Some ob"
| "object _ = None"

fun property :: "node \<Rightarrow> node option" where
  "property (MemberExpression ob p) = Some p"
| "property _ = None"

fun left :: "node \<Rightarrow> node option" where
  "left (BinaryExpression l r) = Some l"
| "left _ = None"

fun right :: "node \<Rightarrow> node option" where
  "right (BinaryExpression l r) = Some r"
| "right _ = None"

definition field :: "'a option \<Rightarrow> error + 'a" where
  "field x = (case x of None \<Rightarrow> Inl TypeError | Some v \<Rightarrow> Inr v)"

text \<open>
  The lexical scope object of the lint context, as \<^verbatim>\<open>findVariableNodeValue\<close> of
  \<^verbatim>\<open>lib/utils/ast-utils.js\<close> reads it: \<^verbatim>\<open>scope.variables\<close>, each with its \<^verbatim>\<open>defs\<close>;
  of a definition \<^verbatim>\<open>d\<close> the name \<^verbatim>\<open>d.name.name\<close> and the initialiser
  \<^verbatim>\<open>d.node.init\<close> (absent for a declaration without initialiser, a parameter or a
  function declaration); and \<^verbatim>\<open>scope.upper\<close>.
\<close>

record definitionOf =
  defName :: string
  defInit :: "node option"

record variable =
  defs :: "definitionOf list"

datatype lexScope = LexScope (variables: "variable list") (upper: "lexScope option")

text \<open>The \<^verbatim>\<open>for\<close> loop over \<^verbatim>\<open>scope.variables\<close>.\<close>

fun findInVariables :: "variable list \<Rightarrow> string \<Rightarrow> node option" where
  "findInVariables [] n = None"
| "findInVariables (v # vs) n =
     (let ds = filter (\<lambda>d. defName d = n) (defs v) in
      if length ds > 0 then
        (case defInit (last ds) of Some val \<Rightarrow> Some val | None \<Rightarrow> findInVariables vs n)
      else findInVariables vs n)"

text \<open>The \<^verbatim>\<open>while\<close> loop over the chain of enclosing scopes.\<close>

fun findInScopes :: "lexScope \<Rightarrow> string \<Rightarrow> node option" where
  "findInScopes (LexScope vs up) n =
     (case findInVariables vs n of
        Some val \<Rightarrow> Some val
      | None \<Rightarrow> (case up of None \<Rightarrow> None | Some sc \<Rightarrow> findInScopes sc n))"

definition findVariableNodeValue :: "lexScope \<Rightarrow> node \<Rightarrow> error + node option" where
  "findVariableNodeValue sc identifierNode =
     (if ntype identifierNode \<noteq> ''Identifier'' then Inl ExpectedIdentifier
      else case name identifierNode of
             None \<Rightarrow> Inr None
           | Some n \<Rightarrow> Inr (findInScopes sc n))"

section \<open>Classifiers\<close>

text \<open>\<^verbatim>\<open>lib/classifier/response-classifier.js\<close>: the base class.\<close>

record response =
  certain :: bool
  result :: bool

definition createResponse :: "bool \<Rightarrow> bool \<Rightarrow> response" where
  "createResponse c r = \<lparr>certain = c, result = r\<rparr>"

text \<open>\<^verbatim>\<open>lodash.last\<close> of an absent or empty array is \<^verbatim>\<open>undefined\<close>.\<close>

definition lastOf :: "'a list option \<Rightarrow> 'a option" where
  "lastOf xs = (case xs of None \<Rightarrow> None | Some ys \<Rightarrow> if ys = [] then None else Some (last ys))"

definition isActionsApp :: "node option \<Rightarrow> error + bool" where
  "isActionsApp valueOfMemberExpressionObject =
     (case valueOfMemberExpressionObject of
        None \<Rightarrow> Inr False
      | Some v \<Rightarrow>
          if ntype v \<noteq> ''CallExpression'' then Inr False
          else bindE (field (callee v))
                 (\<lambda>c. Inr (name c = Some ''dialogflow'' \<or> name c = Some ''actionssdk'')))"

definition isNodeIntentHandler :: "lexScope \<Rightarrow> node option \<Rightarrow> error + bool" where
  "isNodeIntentHandler sc nodeOpt =
     (case nodeOpt of
        None \<Rightarrow> Inr False
      | Some node \<Rightarrow>
          if ntype node \<noteq> ''CallExpression'' then Inr False
          else
            bindE (field (callee node)) (\<lambda>memberExpression.
            if ntype memberExpression \<noteq> ''MemberExpression'' then Inr False
            else if (case lastOf (arguments node) of
                       None \<Rightarrow> False | Some a \<Rightarrow> ntype a = ''Literal'')
              then Inr False
            else
              bindE (field (object memberExpression)) (\<lambda>ob.
              bindE (findVariableNodeValue sc ob) (\<lambda>valueOfMemberExpressionObject.
              bindE (isActionsApp valueOfMemberExpressionObject) (\<lambda>actionsApp.
              if \<not> actionsApp then Inr False
              else
                bindE (field (property memberExpression)) (\<lambda>p.
                if name p = Some ''intent'' \<or> name p = Some ''fallback''
                then Inr (\<not> (case arguments node of
                                None \<Rightarrow> False
                              | Some as \<Rightarrow> length as = 2 \<and> ntype (as ! 1) = ''Identifier''))
                else Inr False))))))"

definition doesReturnActionResponse :: "node option \<Rightarrow> error + bool" where
  "doesReturnActionResponse nodeOpt =
     (case nodeOpt of
        None \<Rightarrow> Inr False
      | Some node \<Rightarrow>
          if ntype node \<noteq> ''CallExpression'' then Inr False
          else
            bindE (field (callee node)) (\<lambda>memberExpression.
            if ntype memberExpression \<noteq> ''MemberExpression'' then Inr False
            else
              bindE (field (object memberExpression)) (\<lambda>ob.
              if name ob \<noteq> Some ''conv'' then Inr False
              else
                bindE (field (property memberExpression)) (\<lambda>p.
                Inr (name p = Some ''close'' \<or> name p = Some ''ask''
                       \<or> name p = Some ''json'')))))"

text \<open>\<^verbatim>\<open>lib/classifier/simple-response-classifier.js\<close>.\<close>

definition isString :: "node \<Rightarrow> error + bool" where
  "isString node =
     (if ntype node = ''Literal'' then Inr True
      else if ntype node = ''BinaryExpression'' then
        bindE (field (left node)) (\<lambda>l.
        if ntype l = ''Literal'' then Inr True
        else
          bindE (field (right node)) (\<lambda>r.
          Inr (ntype r = ''Literal'' \<or> ntype l = ''TemplateLiteral''
                 \<or> ntype r = ''TemplateLiteral'')))
      else Inr (ntype node = ''TemplateLiteral''))"

text \<open>
  \<^verbatim>\<open>_isSimpleResponse\<close> calls itself on the initialiser of a resolved identifier, always
  with the scope of the node being visited. The recursion need not end
  (\<^verbatim>\<open>var a = a\<close>), so the result is an option: \<open>None\<close> when the call does not return.
\<close>

partial_function (option) isSimpleResponse :: "lexScope \<Rightarrow> node \<Rightarrow> (error + response) option" where
  "isSimpleResponse sc node =
     (if ntype node = ''CallExpression'' then Some (Inr (createResponse False False))
      else if ntype node = ''Identifier'' then
        (case findVariableNodeValue sc node of
           Inl e \<Rightarrow> Some (Inl e)
         | Inr None \<Rightarrow> Some (Inr (createResponse False False))
         | Inr (Some val) \<Rightarrow> isSimpleResponse sc val)
      else if ntype node = ''MemberExpression'' \<or> ntype node = ''SpreadElement''
        then Some (Inr (createResponse False False))
      else if ntype node = ''NewExpression'' then
        (case callee node of
           None \<Rightarrow> Some (Inl TypeError)
         | Some c \<Rightarrow> Some (Inr (if name c = Some ''SimpleResponse''
                                then createResponse True True
                                else createResponse True False)))
      else
        (case isString node of
           Inl e \<Rightarrow> Some (Inl e)
         | Inr b \<Rightarrow> Some (Inr (if b then createResponse True True
                                else createResponse True False))))"

definition classify :: "lexScope \<Rightarrow> node \<Rightarrow> (error + response) option" where
  "classify sc node = isSimpleResponse sc node"

section \<open>The rule \<^verbatim>\<open>at-most-two-simple-responses\<close>\<close>

text \<open>
  What the lint context answers while a listener runs: \<^verbatim>\<open>getAncestors()\<close> and
  \<^verbatim>\<open>getScope()\<close>.
\<close>

record lintContext =
  getAncestors :: "astNode list"
  getScope :: lexScope

text \<open>
  The object returned by \<^verbatim>\<open>create\<close> maps selectors to listeners; the linter calls the
  listener registered for the selector of a traversal event, and nothing when there is none.
  \<open>accountListeners\<close> are the selectors whose listener passes the node and the selector to
  \<^verbatim>\<open>manager.account\<close>; the listeners of \<open>functionListeners\<close> first ask
  \<^verbatim>\<open>isNodeIntentHandler\<close> about the parent of the function and extend the label by
  \<^verbatim>\<open>', Intent'\<close>. The remaining listener, \<^verbatim>\<open>CallExpression\<close>, is
  \<open>atMostTwo_CallExpression\<close> below.
\<close>

definition accountListeners :: "string list" where
  "accountListeners =
     [''IfStatement > ExpressionStatement'', ''IfStatement > BlockStatement'',
      ''IfStatement > IfStatement'', ''IfStatement:exit'',
      ''MethodDefinition'', ''MethodDefinition:exit'',
      ''FunctionDeclaration'', ''FunctionDeclaration:exit'',
      ''CatchClause'', ''CatchClause:exit'', ''TryStatement'', ''ReturnStatement'']"

definition functionListeners :: "string list" where
  "functionListeners =
     [''FunctionExpression'', ''FunctionExpression:exit'',
      ''ArrowFunctionExpression'', ''ArrowFunctionExpression:exit'']"

record visit =
  ctx :: lintContext
  selector :: string
  visited :: astNode
  parentOf :: "node option"

text \<open>
  The function \<^verbatim>\<open>report\<close> of the rule is the reporter callback of the manager, and the
  \<^verbatim>\<open>CallExpression\<close> listener calls it as well, once for every argument. It takes no
  argument and reads the current scope, so it throws when there is none. When the count of
  the current scope is above 2 it passes the \<^verbatim>\<open>lastViolatingNode\<close> of that scope to
  \<^verbatim>\<open>context.report\<close> as the node of the problem; the linter requires a node (no location
  is given), and \<^verbatim>\<open>context.report\<close> throws when the frame has none.
\<close>

definition atMostTwo_report :: "int reporter" where
  "atMostTwo_report arg m =
     (case currentScope m of
        None \<Rightarrow> Inl TypeError
      | Some s \<Rightarrow>
          if metadata s > 2
          then (case lastViolatingNode s of
                  None \<Rightarrow> Inl NodeMustBeProvided
                | Some violatingNode \<Rightarrow> Inr m)
          else Inr m)"

text \<open>
  The violations \<^verbatim>\<open>report\<close> has passed to \<^verbatim>\<open>context.report\<close>: one for every call that
  found a count above 2, at the \<^verbatim>\<open>lastViolatingNode\<close> of the current frame.
\<close>

definition atMostTwo_violations :: "int ScopeManager \<Rightarrow> astNode list" where
  "atMostTwo_violations m =
     List.map_filter
       (\<lambda>(arg, cur). case cur of
                        None \<Rightarrow> None
                      | Some s \<Rightarrow> if metadata s > 2 then lastViolatingNode s else None)
       (reporterCalls m)"

definition atMostTwo_listener :: "visit \<Rightarrow> int ScopeManager \<Rightarrow> error + int ScopeManager" where
  "atMostTwo_listener v m =
     (if selector v \<in> set accountListeners
        then count_account atMostTwo_report (getAncestors (ctx v)) (visited v) (selector v) m
      else if selector v \<in> set functionListeners
        then bindE (isNodeIntentHandler (getScope (ctx v)) (parentOf v)) (\<lambda>handler.
               count_account atMostTwo_report (getAncestors (ctx v)) (visited v)
                 (if handler then selector v @ '', Intent'' else selector v) m)
      else Inr m)"

text \<open>
  The loop of the \<^verbatim>\<open>CallExpression\<close> listener over the arguments of a client library
  call; \<open>memberExpression\<close> is the callee, recorded as the violating node. The listener
  calls \<^verbatim>\<open>report\<close> itself, and the call is recorded like the calls the manager makes.
  The result is \<open>None\<close> when a classification does not return.
\<close>

fun atMostTwo_arguments ::
  "lexScope \<Rightarrow> astNode \<Rightarrow> node list \<Rightarrow> int ScopeManager \<Rightarrow> (error + int ScopeManager) option" where
  "atMostTwo_arguments sc memberExpression [] m = Some (Inr m)"
| "atMostTwo_arguments sc memberExpression (a # as) m =
     (case classify sc a of
        None \<Rightarrow> None
      | Some (Inl e) \<Rightarrow> Some (Inl e)
      | Some (Inr judgeResponse) \<Rightarrow>
          (case bindE (if certain judgeResponse \<and> result judgeResponse
                       then assignCurrent
                              (\<lambda>s. s\<lparr>metadata := metadata s + 1,
                                     lastViolatingNode := Some memberExpression\<rparr>) m
                       else Inr m) (reporterFn atMostTwo_report None) of
             Inl e \<Rightarrow> Some (Inl e)
           | Inr m' \<Rightarrow> atMostTwo_arguments sc memberExpression as m'))"

definition atMostTwo_CallExpression ::
  "lexScope \<Rightarrow> node \<Rightarrow> astNode \<Rightarrow> int ScopeManager \<Rightarrow> (error + int ScopeManager) option" where
  "atMostTwo_CallExpression sc callExpression memberExpression m =
     (case doesReturnActionResponse (Some callExpression) of
        Inl e \<Rightarrow> Some (Inl e)
      | Inr actionResponse \<Rightarrow>
          if actionResponse then
            (case arguments callExpression of
               None \<Rightarrow> Some (Inl TypeError)
             | Some args \<Rightarrow> atMostTwo_arguments sc memberExpression args m)
          else Some (Inr m))"

text \<open>
  A pass of the linter, as far as this rule sees it: the listeners run in the order of the
  traversal, and an error thrown by one of them ends the pass. \<open>OnNode\<close> is an event whose
  listener, if any, is among those of \<open>atMostTwo_listener\<close>; \<open>OnCall\<close> is the entry of a
  call expression, given by the scope at that point, the call as the classifier reads it and
  its callee as a node object.
\<close>

datatype lintStep = OnNode visit | OnCall lexScope node astNode

fun atMostTwo_lint :: "lintStep list \<Rightarrow> int ScopeManager \<Rightarrow> (error + int ScopeManager) option" where
  "atMostTwo_lint [] m = Some (Inr m)"
| "atMostTwo_lint (OnNode v # steps) m =
     (case atMostTwo_listener v m of
        Inl e \<Rightarrow> Some (Inl e)
      | Inr m' \<Rightarrow> atMostTwo_lint steps m')"
| "atMostTwo_lint (OnCall sc callExpression memberExpression # steps) m =
     (case atMostTwo_CallExpression sc callExpression memberExpression m of
        None \<Rightarrow> None
      | Some (Inl e) \<Rightarrow> Some (Inl e)
      | Some (Inr m') \<Rightarrow> atMostTwo_lint steps m')"

section \<open>The rule \<^verbatim>\<open>must-return-response\<close>\<close>

text \<open>
  The same four function listeners, and the presence tracker behind
  \<^verbatim>\<open>manager.account\<close>. Its \<^verbatim>\<open>CallExpression\<close> listener sets the metadata of the
  current frame and neither pushes nor pops. The function \<^verbatim>\<open>report\<close> of this rule is
  called with the node of the function that ends; when the current scope has a false
  metadata it passes that node to \<^verbatim>\<open>context.report\<close>.
\<close>

definition mustReturn_report :: "bool reporter" where
  "mustReturn_report violationNode m =
     (case currentScope m of
        None \<Rightarrow> Inl TypeError
      | Some s \<Rightarrow>
          if \<not> metadata s
          then (case violationNode of
                  None \<Rightarrow> Inl NodeMustBeProvided
                | Some n \<Rightarrow> Inr m)
          else Inr m)"

definition mustReturn_accountListeners :: "string list" where
  "mustReturn_accountListeners =
     [''IfStatement > ExpressionStatement'', ''IfStatement > BlockStatement'',
      ''IfStatement > IfStatement'', ''IfStatement:exit'',
      ''FunctionDeclaration'', ''FunctionDeclaration:exit'',
      ''MethodDefinition'', ''MethodDefinition:exit'',
      ''CatchClause'', ''TryStatement > BlockStatement'',
      ''TryStatement > ExpressionStatement'', ''CatchClause:exit'']"

definition mustReturn_listener :: "visit \<Rightarrow> bool ScopeManager \<Rightarrow> error + bool ScopeManager" where
  "mustReturn_listener v m =
     (if selector v \<in> set mustReturn_accountListeners
        then presence_account mustReturn_report (visited v) (selector v) m
      else if selector v \<in> set functionListeners
        then bindE (isNodeIntentHandler (getScope (ctx v)) (parentOf v)) (\<lambda>handler.
               presence_account mustReturn_report (visited v)
                 (if handler then selector v @ '', Intent'' else selector v) m)
      else Inr m)"

section \<open>Program regions and their traversal\<close>

text \<open>
  The regions whose frames the rule pushes and pops in pairs, each with the events the
  traversal delivers for it, in order: a call expression; a single event (a return
  statement, or an event the rule has no listener for); a function with its body between
  the entry and the exit of the function; a conditional without else branch, the entry of
  the consequent, its body and the exit of the conditional; a conditional with both
  branches; a try statement with a catch clause, where the entry of the try statement and of
  the catch clause are followed by the exit of the catch clause. \<open>wellFormed\<close> says that
  the events carry the selectors and nodes of these constructs, that the branches of a
  conditional are statements the rule pushes a frame for, and that the classification of
  the arguments of a call and the test for an intent handler return.
\<close>

datatype region =
    Call lexScope node astNode
  | Plain visit
  | Function visit "region list" visit
  | IfThen visit "region list" visit
  | IfThenElse visit "region list" visit "region list" visit
  | TryCatch visit "region list" visit "region list" visit

fun events :: "region \<Rightarrow> lintStep list" where
  "events (Call sc callExpression memberExpression) = [OnCall sc callExpression memberExpression]"
| "events (Plain v) = [OnNode v]"
| "events (Function enter body exit) =
     OnNode enter # concat (map events body) @ [OnNode exit]"
| "events (IfThen consequent body exit) =
     OnNode consequent # concat (map events body) @ [OnNode exit]"
| "events (IfThenElse consequent body alt altBody exit) =
     OnNode consequent # concat (map events body) @
     OnNode alt # concat (map events altBody) @ [OnNode exit]"
| "events (TryCatch tryStatement block catchClause handler exit) =
     OnNode tryStatement # concat (map events block) @
     OnNode catchClause # concat (map events handler) @ [OnNode exit]"

definition branchSelectors :: "string list" where
  "branchSelectors = [''IfStatement > ExpressionStatement'', ''IfStatement > BlockStatement'',
                      ''IfStatement > IfStatement'']"

definition returns :: "(error + 'a) option \<Rightarrow> bool" where
  "returns r = (case r of Some (Inr x) \<Rightarrow> True | _ \<Rightarrow> False)"

definition succeeds :: "error + 'a \<Rightarrow> bool" where
  "succeeds r = (case r of Inl e \<Rightarrow> False | Inr x \<Rightarrow> True)"

definition ifExit :: "visit \<Rightarrow> bool" where
  "ifExit v = (selector v = ''IfStatement:exit'' \<and> nodeType (visited v) = ''IfStatement''
               \<and> getAncestors (ctx v) \<noteq> [])"

definition functionPair :: "visit \<Rightarrow> visit \<Rightarrow> bool" where
  "functionPair enter exit =
     (selector exit = selector enter @ '':exit''
      \<and> nodeType (visited exit) \<noteq> ''IfStatement'' \<and> nodeType (visited exit) \<noteq> ''CatchClause''
      \<and> (selector enter = ''FunctionDeclaration'' \<or> selector enter = ''MethodDefinition''
         \<or> ((selector enter = ''FunctionExpression'' \<or> selector enter = ''ArrowFunctionExpression'')
            \<and> succeeds (isNodeIntentHandler (getScope (ctx enter)) (parentOf enter))
            \<and> succeeds (isNodeIntentHandler (getScope (ctx exit)) (parentOf exit)))))"

fun wellFormed :: "region \<Rightarrow> bool" where
  "wellFormed (Call sc callExpression memberExpression) =
     list_all (\<lambda>a. returns (classify sc a))
       (case arguments callExpression of None \<Rightarrow> [] | Some as \<Rightarrow> as)"
| "wellFormed (Plain v) =
     (selector v = ''ReturnStatement''
      \<or> (selector v \<notin> set accountListeners \<and> selector v \<notin> set functionListeners))"
| "wellFormed (Function enter body exit) =
     (functionPair enter exit \<and> list_all wellFormed body)"
| "wellFormed (IfThen consequent body exit) =
     (selector consequent \<in> set branchSelectors \<and> ifExit exit
      \<and> alternate (visited exit) = None \<and> list_all wellFormed body)"
| "wellFormed (IfThenElse consequent body alt altBody exit) =
     (selector consequent \<in> set branchSelectors \<and> selector alt \<in> set branchSelectors
      \<and> ifExit exit \<and> alternate (visited exit) \<noteq> None
      \<and> list_all wellFormed body \<and> list_all wellFormed altBody)"
| "wellFormed (TryCatch tryStatement block catchClause handler exit) =
     (selector tryStatement = ''TryStatement'' \<and> selector catchClause = ''CatchClause''
      \<and> selector exit = ''CatchClause:exit'' \<and> nodeType (visited exit) = ''CatchClause''
      \<and> list_all wellFormed block \<and> list_all wellFormed handler)"

text \<open>
  How a pass over a region may end: it returns with the frames on the stack labelled
  \<open>ls\<close>, or it ends with the error of a report without node.
\<close>

definition endsWithLabels :: "(error + int ScopeManager) option \<Rightarrow> string list \<Rightarrow> bool" where
  "endsWithLabels r ls =
     (case r of
        None \<Rightarrow> False
      | Some (Inl e) \<Rightarrow> e = NodeMustBeProvided
      | Some (Inr m) \<Rightarrow> map event (scopeStack m) = ls)"

section \<open>Example inputs\<close>

text \<open>
  Frames, nodes and traversal events used as concrete inputs below. \<open>frame\<close> builds a frame
  that has not recorded a violating node.
\<close>

definition frame :: "string \<Rightarrow> 'm \<Rightarrow> bool \<Rightarrow> 'm Scope" where
  "frame ev v r = \<lparr>event = ev, metadata = v, lastViolatingNode = None, hasReturnStatement = r\<rparr>"

definition ex_node :: "nat \<Rightarrow> string \<Rightarrow> astNode" where
  "ex_node i t = \<lparr>nodeId = i, nodeType = t, alternate = None\<rparr>"

definition ex_block :: astNode where
  "ex_block = \<lparr>nodeId = 1, nodeType = ''BlockStatement'', alternate = None\<rparr>"

definition ex_outerIf :: astNode where
  "ex_outerIf = \<lparr>nodeId = 12, nodeType = ''IfStatement'', alternate = Some 2\<rparr>"

definition ex_if :: astNode where
  "ex_if = \<lparr>nodeId = 2, nodeType = ''IfStatement'', alternate = None\<rparr>"

definition ex_ifElse :: astNode where
  "ex_ifElse = \<lparr>nodeId = 2, nodeType = ''IfStatement'', alternate = Some 4\<rparr>"

definition ex_catch :: astNode where
  "ex_catch = \<lparr>nodeId = 3, nodeType = ''CatchClause'', alternate = None\<rparr>"

definition ex_event :: "astNode list \<Rightarrow> string \<Rightarrow> astNode \<Rightarrow> visit" where
  "ex_event anc sel n =
     \<lparr>ctx = \<lparr>getAncestors = anc, getScope = LexScope [] None\<rparr>,
      selector = sel, visited = n, parentOf = None\<rparr>"

definition ex_visit :: "astNode list \<Rightarrow> string \<Rightarrow> astNode \<Rightarrow> lintStep" where
  "ex_visit anc sel n = OnNode (ex_event anc sel n)"

text \<open>
  The call \<^verbatim>\<open>conv.ask(arg)\<close>, met in a scope without variables; \<open>i\<close> identifies its
  callee.
\<close>

definition ex_call :: "nat \<Rightarrow> node \<Rightarrow> region" where
  "ex_call i arg =
     Call (LexScope [] None)
       (CallExpression (MemberExpression (Identifier ''conv'') (Identifier ''ask'')) [arg])
       (ex_node i ''MemberExpression'')"

definition ex_ask :: "nat \<Rightarrow> node \<Rightarrow> lintStep" where
  "ex_ask i arg =
     OnCall (LexScope [] None)
       (CallExpression (MemberExpression (Identifier ''conv'') (Identifier ''ask'')) [arg])
       (ex_node i ''MemberExpression'')"

text \<open>
  The program
  \<^verbatim>\<open>function handler(conv) { if (a) { conv.ask('foo'); } else if (b) { conv.ask('bar'); return; } conv.ask('baz'); }\<close>
  of the tests of the rule.
\<close>

definition ex_chain :: region where
  "ex_chain =
     Function (ex_event [] ''FunctionDeclaration'' (ex_node 10 ''FunctionDeclaration''))
       [IfThenElse
          (ex_event [] ''IfStatement > BlockStatement'' (ex_node 3 ''BlockStatement''))
          [ex_call 5 Literal]
          (ex_event [] ''IfStatement > IfStatement'' ex_if)
          [IfThen
             (ex_event [] ''IfStatement > BlockStatement'' (ex_node 4 ''BlockStatement''))
             [ex_call 6 Literal,
              Plain (ex_event [] ''ReturnStatement'' (ex_node 9 ''ReturnStatement''))]
             (ex_event [ex_node 0 ''Program'', ex_node 10 ''FunctionDeclaration'', ex_block,
                        ex_outerIf] ''IfStatement:exit'' ex_if)]
          (ex_event [ex_node 0 ''Program'', ex_node 10 ''FunctionDeclaration'', ex_block]
             ''IfStatement:exit'' ex_outerIf),
        ex_call 7 Literal]
       (ex_event [] ''FunctionDeclaration:exit'' (ex_node 10 ''FunctionDeclaration''))"

text \<open>
  The statement
  \<^verbatim>\<open>try { conv.ask('1'); } catch (e) { conv.ask('2'); conv.ask('3'); conv.ask('4'); }\<close>.
\<close>

definition ex_tryCatch :: region where
  "ex_tryCatch =
     TryCatch (ex_event [] ''TryStatement'' (ex_node 11 ''TryStatement''))
       [ex_call 5 Literal]
       (ex_event [] ''CatchClause'' ex_catch)
       [ex_call 6 Literal, ex_call 7 Literal, ex_call 8 Literal]
       (ex_event [] ''CatchClause:exit'' ex_catch)"

text \<open>
  The scope of \<^verbatim>\<open>let a = foo(); const app = dialogflow();\<close>.
\<close>

definition ex_scope :: lexScope where
  "ex_scope =
     LexScope
       [\<lparr>defs = [\<lparr>defName = ''a'',
                  defInit = Some (CallExpression (Identifier ''foo'') [])\<rparr>]\<rparr>,
        \<lparr>defs = [\<lparr>defName = ''app'',
                  defInit = Some (CallExpression (Identifier ''dialogflow'') [])\<rparr>]\<rparr>]
       None"

section \<open>Basic facts\<close>

lemma includes_if_not_sentinel: "str_includes ev ''IfStatement'' \<Longrightarrow> ev \<noteq> ''Sentinel''"
  by auto

lemma includes_catch_not_sentinel: "str_includes ev ''CatchClause'' \<Longrightarrow> ev \<noteq> ''Sentinel''"
  by auto

lemma includes_try_not_sentinel: "str_includes ev ''TryStatement'' \<Longrightarrow> ev \<noteq> ''Sentinel''"
  by auto

lemma ntype_other: "ntype (OtherNode t) \<notin> set classifiedTypes"
  using Rep_otherType [of t] by simp

lemma ntype_call: "ntype v = ''CallExpression'' \<Longrightarrow> \<exists>c as. v = CallExpression c as"
  using ntype_other by (cases v) (auto simp: classifiedTypes_def)

lemma callee_of_call: "ntype v = ''CallExpression'' \<Longrightarrow> callee v \<noteq> None"
  using ntype_call [of v] by auto

lemmas engine_defs = currentScope_def exitScope_def invariant_def assignCurrent_def
  reporterFn_def getElseScopeIfAny_def bindE_def butlast_append last_append

section \<open>Conditional exit of the counting tracker\<close>

text \<open>
  The reporter of the rule returns, leaving the manager as it is, when the current frame
  has a violating node; it throws when the count is above 2 and the frame has none.
\<close>

lemma atMostTwo_report_with_node:
  "currentScope m = Some s \<Longrightarrow> lastViolatingNode s \<noteq> None \<Longrightarrow> atMostTwo_report arg m = Inr m"
  by (auto simp: atMostTwo_report_def)

lemma atMostTwo_report_without_node:
  "currentScope m = Some s \<Longrightarrow> lastViolatingNode s = None \<Longrightarrow>
     atMostTwo_report arg m = (if metadata s > 2 then Inl NodeMustBeProvided else Inr m)"
  by (simp add: atMostTwo_report_def)

text \<open>
  \<^verbatim>\<open>_handleIfExit\<close> when the frames of the branches are on the stack, for every reporter
  callback: \<open>ifScope\<close> is the frame of the consequent, \<open>elseOpt\<close> the frame of the alternate
  when the node has one, \<open>parent\<close> the frame under them. The callback is called once, after
  the conditional has been recorded as the violating node of the parent, when the merged
  value differs from the value before, and not at all otherwise; the return-statement
  correction follows.
\<close>

lemma count_handleIfExit_calls:
  assumes st: "scopeStack m =
                 rest @ parent # ifScope # (case elseOpt of None \<Rightarrow> [] | Some e \<Rightarrow> [e])"
    and alt: "(elseOpt = None) = (alternate node = None)"
    and lab: "str_includes (event ifScope) ''IfStatement''"
    and labE: "\<forall>e. elseOpt = Some e \<longrightarrow> str_includes (event e) ''IfStatement''"
    and ch: "isInsideIfElseStatement ancestors node = Inr chained"
  shows "count_handleIfExit callback ancestors node m =
      (let c = metadata ifScope;
           e = (case elseOpt of None \<Rightarrow> 0 | Some e \<Rightarrow> metadata e);
           merged = (if chained then max (metadata parent) (max c e)
                     else metadata parent + max c e)
       in if merged = metadata parent
          then undoChangesIfThereIsReturnStatement ifScope elseOpt (metadata parent)
                 (m\<lparr>scopeStack := rest @ [parent\<lparr>metadata := merged\<rparr>]\<rparr>)
          else bindE
                 (callback None
                    (m\<lparr>scopeStack :=
                         rest @ [parent\<lparr>metadata := merged, lastViolatingNode := Some node\<rparr>],
                       reporterCalls := reporterCalls m @
                         [(None, Some (parent\<lparr>metadata := merged,
                                              lastViolatingNode := Some node\<rparr>))]\<rparr>))
                 (undoChangesIfThereIsReturnStatement ifScope elseOpt (metadata parent)))"
proof (cases elseOpt)
  case None
  have a: "alternate node = None" using alt None by simp
  have ne: "event ifScope \<noteq> ''Sentinel''" using lab includes_if_not_sentinel by blast
  show ?thesis
    using None a lab ch ne
    by (simp add: count_handleIfExit_def engine_defs st Let_def)
next
  case (Some e)
  have a: "alternate node \<noteq> None" using alt Some by simp
  have ne: "event ifScope \<noteq> ''Sentinel''" using lab includes_if_not_sentinel by blast
  have le: "str_includes (event e) ''IfStatement''" using labE Some by auto
  have nee: "event e \<noteq> ''Sentinel''" using le includes_if_not_sentinel by blast
  show ?thesis
    using Some a lab ch ne le nee
    by (simp add: count_handleIfExit_def engine_defs st Let_def)
qed

text \<open>
  The whole effect of \<^verbatim>\<open>_handleIfExit\<close> on the counts with the reporter of the rule. The
  reporter is called once when the merged value differs from the value before, and not at
  all otherwise; the conditional is the violating node of the parent by then, so the call
  returns.
\<close>

lemma count_handleIfExit_metadata:
  assumes st: "scopeStack m =
                 rest @ parent # ifScope # (case elseOpt of None \<Rightarrow> [] | Some e \<Rightarrow> [e])"
    and alt: "(elseOpt = None) = (alternate node = None)"
    and lab: "str_includes (event ifScope) ''IfStatement''"
    and labE: "\<forall>e. elseOpt = Some e \<longrightarrow> str_includes (event e) ''IfStatement''"
    and ch: "isInsideIfElseStatement ancestors node = Inr chained"
  shows "\<exists>m'. count_handleIfExit atMostTwo_report ancestors node m = Inr m' \<and>
      map metadata (scopeStack m') = map metadata rest @
        [let c = metadata ifScope;
             e = (case elseOpt of None \<Rightarrow> 0 | Some e \<Rightarrow> metadata e);
             elseReturns = (case elseOpt of None \<Rightarrow> False | Some e \<Rightarrow> hasReturnStatement e);
             merged = (if chained then max (metadata parent) (max c e)
                       else metadata parent + max c e)
         in if hasReturnStatement ifScope \<and> elseReturns then metadata parent
            else if hasReturnStatement ifScope then merged - c + e
            else if elseReturns then merged - e + c
            else merged] \<and>
      length (reporterCalls m') = length (reporterCalls m) +
        (let c = metadata ifScope;
             e = (case elseOpt of None \<Rightarrow> 0 | Some e \<Rightarrow> metadata e);
             merged = (if chained then max (metadata parent) (max c e)
                       else metadata parent + max c e)
         in if merged = metadata parent then 0 else 1)"
proof (cases elseOpt)
  case None
  have a: "alternate node = None" using alt None by simp
  have ne: "event ifScope \<noteq> ''Sentinel''" using lab includes_if_not_sentinel by blast
  show ?thesis
    using None a lab ch ne
    by (simp add: count_handleIfExit_def engine_defs st Let_def atMostTwo_report_def
        undoChangesIfThereIsReturnStatement_def)
next
  case (Some e)
  have a: "alternate node \<noteq> None" using alt Some by simp
  have ne: "event ifScope \<noteq> ''Sentinel''" using lab includes_if_not_sentinel by blast
  have le: "str_includes (event e) ''IfStatement''" using labE Some by auto
  have nee: "event e \<noteq> ''Sentinel''" using le includes_if_not_sentinel by blast
  show ?thesis
    using Some a lab ch ne le nee
    by (simp add: count_handleIfExit_def engine_defs st Let_def atMostTwo_report_def
        undoChangesIfThereIsReturnStatement_def)
qed

text \<open>
  Claim C1. Counting tracker, exit of a conditional that is not the alternate of an
  enclosing conditional, no return statement in either branch: with \<open>c\<close> the count of the
  consequent frame and \<open>e\<close> the count of the alternate frame (0 when the conditional has no
  else branch), the call returns and the parent frame holds its former count plus
  \<open>max c e\<close>; the frames below the parent keep their counts. The manager is the one the
  rule constructs, with the function \<^verbatim>\<open>report\<close> of the rule as reporter.
\<close>

theorem count_if_exit_standalone:
  assumes "scopeStack m =
             rest @ parent # ifScope # (case elseOpt of None \<Rightarrow> [] | Some e \<Rightarrow> [e])"
    and "(elseOpt = None) = (alternate node = None)"
    and "str_includes (event ifScope) ''IfStatement''"
    and "\<forall>e. elseOpt = Some e \<longrightarrow> str_includes (event e) ''IfStatement''"
    and "\<not> hasReturnStatement ifScope"
    and "\<forall>e. elseOpt = Some e \<longrightarrow> \<not> hasReturnStatement e"
    and "isInsideIfElseStatement ancestors node = Inr False"
  shows "\<exists>m'. count_handleIfExit atMostTwo_report ancestors node m = Inr m' \<and>
      map metadata (scopeStack m') = map metadata rest @
        [metadata parent +
           max (metadata ifScope) (case elseOpt of None \<Rightarrow> 0 | Some e \<Rightarrow> metadata e)]"
  using count_handleIfExit_metadata [OF assms(1-4) assms(7)] assms(5,6)
  by (auto simp: Let_def split: option.splits)

theorem count_if_exit_standalone_witness:
  "\<exists>m'. count_handleIfExit atMostTwo_report [ex_block] ex_ifElse
           \<lparr>scopeStack = [frame ''Sentinel'' 0 False, frame ''FunctionDeclaration'' 1 False,
                          frame ''IfStatement > BlockStatement'' 2 False,
                          frame ''IfStatement > BlockStatement'' 1 False],
            reporterCalls = []\<rparr> = Inr m' \<and>
        map metadata (scopeStack m') = [0, 3]"
  using count_if_exit_standalone [of
      "\<lparr>scopeStack = [frame ''Sentinel'' 0 False, frame ''FunctionDeclaration'' 1 False,
                      frame ''IfStatement > BlockStatement'' 2 False,
                      frame ''IfStatement > BlockStatement'' 1 False],
        reporterCalls = []\<rparr>"
      "[frame ''Sentinel'' 0 False]" "frame ''FunctionDeclaration'' 1 False"
      "frame ''IfStatement > BlockStatement'' 2 False"
      "Some (frame ''IfStatement > BlockStatement'' 1 False)" ex_ifElse "[ex_block]"]
  by (simp add: frame_def ex_ifElse_def ex_block_def isInsideIfElseStatement_def)



text \<open>
  Claim C3. The return-statement correction of the counting tracker. When both branches
  return, the parent gets its former count back, and when only the consequent returns the
  code subtracts the consequent's count from the merged value and adds the alternate's.
  The claim concludes that the parent then grows by exactly the alternate's count. The code
  does not do that when the returning consequent counts less than the alternate: for
  \<^verbatim>\<open>function f(conv) { if (a) { conv.ask('1'); return; } else { conv.ask('2'); conv.ask('3'); } }\<close>
  the frames at the exit of the conditional are the sentinel, the function frame (count 0),
  the consequent (count 1, with a return) and the alternate (count 2). The merge gives
  \<open>0 + max 1 2 = 2\<close>, the correction \<open>2 - 1 + 2 = 3\<close>: the function frame ends with
  count 3, though no path through the conditional makes more than 2 responses and the
  alternate's count is 2.
\<close>

theorem count_if_exit_consequent_return_overcounts:
  "count_handleIfExit atMostTwo_report [ex_block] ex_ifElse
     \<lparr>scopeStack = [frame ''Sentinel'' 0 False, frame ''FunctionDeclaration'' 0 False,
                    frame ''IfStatement > BlockStatement'' 1 True,
                    frame ''IfStatement > BlockStatement'' 2 False],
      reporterCalls = []\<rparr> =
   Inr \<lparr>scopeStack = [frame ''Sentinel'' 0 False,
                       (frame ''FunctionDeclaration'' 3 False)
                         \<lparr>lastViolatingNode := Some ex_ifElse\<rparr>],
        reporterCalls = [(None, Some ((frame ''FunctionDeclaration'' 2 False)
                                        \<lparr>lastViolatingNode := Some ex_ifElse\<rparr>))]\<rparr>"
  by (simp add: count_handleIfExit_def engine_defs Let_def undoChangesIfThereIsReturnStatement_def
      isInsideIfElseStatement_def frame_def ex_ifElse_def ex_block_def atMostTwo_report_def)

text \<open>
  The rule as a whole on three programs. Three responses in a row are reported once, at the
  third call. In \<^verbatim>\<open>if (a) { conv.ask('1'); conv.ask('2'); return; } conv.ask('3');\<close> nothing
  is reported. In
  \<^verbatim>\<open>function f(conv) { if (a) { conv.ask('1'); return; } else { conv.ask('2'); conv.ask('3'); } conv.ask(new BasicCard()); }\<close>
  no path makes more than two simple responses, and the rule reports a violation at the
  conditional: the count of 3 that the correction leaves in the frame of the function is
  what \<^verbatim>\<open>report\<close> finds at the next call.
\<close>

lemma three_responses_in_a_row:
  "\<exists>m. atMostTwo_lint [ex_ask 1 Literal, ex_ask 2 Literal, ex_ask 3 Literal] count_new
         = Some (Inr m)
       \<and> atMostTwo_violations m = [ex_node 3 ''MemberExpression'']"
  by (simp add: ex_node_def count_new_def count_createScopeObject_def engine_defs
      ex_ask_def atMostTwo_CallExpression_def doesReturnActionResponse_def field_def
      classify_def isSimpleResponse.simps isString_def createResponse_def atMostTwo_report_def
      atMostTwo_violations_def List.map_filter_def)

lemma returning_branch_is_not_counted:
  "\<exists>m. atMostTwo_lint
         [ex_visit [] ''IfStatement > BlockStatement'' (ex_node 3 ''BlockStatement''),
          ex_ask 5 Literal,
          ex_ask 6 Literal,
          ex_visit [] ''ReturnStatement'' (ex_node 9 ''ReturnStatement''),
          ex_visit [ex_node 0 ''Program''] ''IfStatement:exit'' ex_if,
          ex_ask 7 Literal]
         count_new = Some (Inr m)
       \<and> map metadata (scopeStack m) = [1] \<and> atMostTwo_violations m = []"
  by (simp add: atMostTwo_listener_def accountListeners_def ex_visit_def ex_event_def
      ex_node_def count_account_def count_dispatchExit_def count_enterScope_def count_new_def
      count_createScopeObject_def engine_defs count_handleIfExit_def Let_def
      isInsideIfElseStatement_def undoChangesIfThereIsReturnStatement_def
      ex_ask_def atMostTwo_CallExpression_def doesReturnActionResponse_def field_def
      classify_def isSimpleResponse.simps isString_def createResponse_def atMostTwo_report_def
      atMostTwo_violations_def List.map_filter_def ex_if_def)

lemma overcount_is_reported:
  "\<exists>m. atMostTwo_lint
         [ex_visit [] ''FunctionDeclaration'' (ex_node 10 ''FunctionDeclaration''),
          ex_visit [] ''IfStatement > BlockStatement'' (ex_node 3 ''BlockStatement''),
          ex_ask 5 Literal,
          ex_visit [] ''ReturnStatement'' (ex_node 9 ''ReturnStatement''),
          ex_visit [] ''IfStatement > BlockStatement'' (ex_node 4 ''BlockStatement''),
          ex_ask 6 Literal,
          ex_ask 7 Literal,
          ex_visit [ex_block] ''IfStatement:exit'' ex_ifElse,
          ex_ask 8 (NewExpression (Identifier ''BasicCard'') []),
          ex_visit [] ''FunctionDeclaration:exit'' (ex_node 10 ''FunctionDeclaration'')]
         count_new = Some (Inr m)
       \<and> scopeStack m = [frame ''Sentinel'' 0 False]
       \<and> atMostTwo_violations m = [ex_ifElse]"
  by (simp add: atMostTwo_listener_def accountListeners_def ex_visit_def ex_event_def
      ex_node_def count_account_def count_dispatchExit_def count_enterScope_def count_new_def
      count_createScopeObject_def frame_def engine_defs count_handleIfExit_def Let_def
      isInsideIfElseStatement_def undoChangesIfThereIsReturnStatement_def
      ex_ask_def atMostTwo_CallExpression_def doesReturnActionResponse_def field_def
      classify_def isSimpleResponse.simps isString_def createResponse_def atMostTwo_report_def
      atMostTwo_violations_def List.map_filter_def ex_ifElse_def ex_block_def)

section \<open>Try/catch exit of the counting tracker\<close>

lemma count_handleCatchExit_frames:
  assumes st: "scopeStack m = rest @ [parent, tryScope, catchScope]"
    and lc: "str_includes (event catchScope) ''CatchClause''"
    and lt: "str_includes (event tryScope) ''TryStatement''"
  shows "count_handleCatchExit callback node m =
     callback None
       (m\<lparr>scopeStack := rest @ [parent\<lparr>metadata :=
                 max (metadata parent) (max (metadata catchScope) (metadata tryScope))\<rparr>],
          reporterCalls := reporterCalls m @ [(None, Some (parent\<lparr>metadata :=
                 max (metadata parent) (max (metadata catchScope) (metadata tryScope))\<rparr>))]\<rparr>)"
proof -
  have nc: "event catchScope \<noteq> ''Sentinel''" using lc includes_catch_not_sentinel by blast
  have nt: "event tryScope \<noteq> ''Sentinel''" using lt includes_try_not_sentinel by blast
  show ?thesis
    using lc lt nc nt
    by (simp add: count_handleCatchExit_def engine_defs st)
qed

text \<open>
  Claim C4. Counting tracker, try/catch exit with the catch frame on top of the try frame,
  for every reporter callback the manager was constructed with: both frames are popped, the
  parent's count becomes the maximum of its former count, the catch count and the try
  count, and the reporter is called exactly once on that stack, whatever the counts are;
  this call is the last step, so the exit returns what the reporter returns and throws what
  it throws. The conditional exit, in contrast, calls the reporter once when the merged
  count differs from the parent's former count, and goes on to the return-statement
  correction without calling it when the count is the same.
\<close>

theorem count_catch_exit:
  assumes "scopeStack m = rest @ [parent, tryScope, catchScope]"
    and "str_includes (event catchScope) ''CatchClause''"
    and "str_includes (event tryScope) ''TryStatement''"
    and "scopeStack mi =
           resti @ parenti # ifScope # (case elseOpt of None \<Rightarrow> [] | Some e \<Rightarrow> [e])"
    and "(elseOpt = None) = (alternate ifNode = None)"
    and "str_includes (event ifScope) ''IfStatement''"
    and "\<forall>e. elseOpt = Some e \<longrightarrow> str_includes (event e) ''IfStatement''"
    and "isInsideIfElseStatement ancestors ifNode = Inr chained"
  shows "count_handleCatchExit callback node m =
     callback None
       (m\<lparr>scopeStack := rest @ [parent\<lparr>metadata :=
                 max (metadata parent) (max (metadata catchScope) (metadata tryScope))\<rparr>],
          reporterCalls := reporterCalls m @ [(None, Some (parent\<lparr>metadata :=
                 max (metadata parent) (max (metadata catchScope) (metadata tryScope))\<rparr>))]\<rparr>)
   \<and> count_handleIfExit callback ancestors ifNode mi =
      (let c = metadata ifScope;
           e = (case elseOpt of None \<Rightarrow> 0 | Some e \<Rightarrow> metadata e);
           merged = (if chained then max (metadata parenti) (max c e)
                     else metadata parenti + max c e)
       in if merged = metadata parenti
          then undoChangesIfThereIsReturnStatement ifScope elseOpt (metadata parenti)
                 (mi\<lparr>scopeStack := resti @ [parenti\<lparr>metadata := merged\<rparr>]\<rparr>)
          else bindE
                 (callback None
                    (mi\<lparr>scopeStack :=
                          resti @ [parenti\<lparr>metadata := merged,
                                           lastViolatingNode := Some ifNode\<rparr>],
                        reporterCalls := reporterCalls mi @
                          [(None, Some (parenti\<lparr>metadata := merged,
                                                lastViolatingNode := Some ifNode\<rparr>))]\<rparr>))
                 (undoChangesIfThereIsReturnStatement ifScope elseOpt (metadata parenti)))"
  using count_handleCatchExit_frames [OF assms(1-3)] count_handleIfExit_calls [OF assms(4-8)]
  by blast

theorem count_catch_exit_witness:
  "count_handleCatchExit atMostTwo_report ex_catch
     \<lparr>scopeStack = [frame ''Sentinel'' 0 False,
                    (frame ''FunctionDeclaration'' 1 False)
                      \<lparr>lastViolatingNode := Some (ex_node 5 ''MemberExpression'')\<rparr>,
                    frame ''TryStatement'' 1 False, frame ''CatchClause'' 3 False],
      reporterCalls = []\<rparr> =
   Inr \<lparr>scopeStack = [frame ''Sentinel'' 0 False,
                       (frame ''FunctionDeclaration'' 3 False)
                         \<lparr>lastViolatingNode := Some (ex_node 5 ''MemberExpression'')\<rparr>],
        reporterCalls = [(None, Some ((frame ''FunctionDeclaration'' 3 False)
                            \<lparr>lastViolatingNode := Some (ex_node 5 ''MemberExpression'')\<rparr>))]\<rparr>
   \<and> count_handleIfExit atMostTwo_report [ex_block] ex_if
       \<lparr>scopeStack = [frame ''Sentinel'' 0 False,
                      frame ''IfStatement > BlockStatement'' 0 False],
        reporterCalls = []\<rparr> =
     Inr \<lparr>scopeStack = [frame ''Sentinel'' 0 False], reporterCalls = []\<rparr>"
  using count_catch_exit [where
      m = "\<lparr>scopeStack = [frame ''Sentinel'' 0 False,
                    (frame ''FunctionDeclaration'' 1 False)
                      \<lparr>lastViolatingNode := Some (ex_node 5 ''MemberExpression'')\<rparr>,
                    frame ''TryStatement'' 1 False, frame ''CatchClause'' 3 False],
            reporterCalls = []\<rparr>"
      and rest = "[frame ''Sentinel'' 0 False]"
      and parent = "(frame ''FunctionDeclaration'' 1 False)
                      \<lparr>lastViolatingNode := Some (ex_node 5 ''MemberExpression'')\<rparr>"
      and tryScope = "frame ''TryStatement'' 1 False"
      and catchScope = "frame ''CatchClause'' 3 False"
      and mi = "\<lparr>scopeStack = [frame ''Sentinel'' 0 False,
                      frame ''IfStatement > BlockStatement'' 0 False],
             reporterCalls = []\<rparr>"
      and resti = "[]" and parenti = "frame ''Sentinel'' 0 False"
      and ifScope = "frame ''IfStatement > BlockStatement'' 0 False" and elseOpt = None
      and ifNode = ex_if and ancestors = "[ex_block]" and chained = False
      and node = ex_catch and callback = atMostTwo_report]
  by (simp add: frame_def ex_if_def ex_block_def ex_node_def isInsideIfElseStatement_def
      atMostTwo_report_def currentScope_def undoChangesIfThereIsReturnStatement_def Let_def)

text \<open>
  With the reporter of the rule the call at the end of the try/catch exit throws when the
  merged count is above 2 and the parent frame has no violating node: the exit does not set
  one, and \<^verbatim>\<open>context.report\<close> refuses a problem without node. For
  \<^verbatim>\<open>try { conv.ask('1'); } catch (e) { conv.ask('2'); conv.ask('3'); conv.ask('4'); }\<close>
  at the top of a file the frames at the exit of the catch clause are the sentinel
  (count 0), the try frame (count 1) and the catch frame (count 3).
\<close>

lemma count_catch_exit_report_without_node:
  "count_handleCatchExit atMostTwo_report ex_catch
     \<lparr>scopeStack = [frame ''Sentinel'' 0 False, frame ''TryStatement'' 1 False,
                    (frame ''CatchClause'' 3 False)
                      \<lparr>lastViolatingNode := Some (ex_node 5 ''MemberExpression'')\<rparr>],
      reporterCalls = []\<rparr> = Inl NodeMustBeProvided"
  by (simp add: count_handleCatchExit_def engine_defs frame_def atMostTwo_report_def)

section \<open>Conditional exit of the presence tracker\<close>

text \<open>
  Claim C5. Presence tracker, conditional exit with the frames of the branches on the
  stack: with an else branch the parent's metadata becomes
  \<open>parent \<or> (consequent \<and> alternate)\<close>; without one the parent's metadata is unchanged.
\<close>

theorem presence_if_exit:
  assumes st: "scopeStack m =
                 rest @ parent # ifScope # (case elseOpt of None \<Rightarrow> [] | Some e \<Rightarrow> [e])"
    and alt: "(elseOpt = None) = (alternate node = None)"
    and lab: "str_includes (event ifScope) ''IfStatement''"
    and labE: "\<forall>e. elseOpt = Some e \<longrightarrow> str_includes (event e) ''IfStatement''"
  shows "presence_handleIfExit node m =
     Inr (m\<lparr>scopeStack := rest @ [parent\<lparr>metadata :=
            (case elseOpt of
               None \<Rightarrow> metadata parent
             | Some e \<Rightarrow> metadata parent \<or> (metadata ifScope \<and> metadata e))\<rparr>]\<rparr>)"
proof (cases elseOpt)
  case None
  have a: "alternate node = None" using alt None by simp
  have ne: "event ifScope \<noteq> ''Sentinel''" using lab includes_if_not_sentinel by blast
  show ?thesis
    using None a lab ne
    by (simp add: presence_handleIfExit_def engine_defs st)
next
  case (Some e)
  have a: "alternate node \<noteq> None" using alt Some by simp
  have ne: "event ifScope \<noteq> ''Sentinel''" using lab includes_if_not_sentinel by blast
  have le: "str_includes (event e) ''IfStatement''" using labE Some by auto
  have nee: "event e \<noteq> ''Sentinel''" using le includes_if_not_sentinel by blast
  show ?thesis
    using Some a lab ne le nee
    by (simp add: presence_handleIfExit_def engine_defs st)
qed

theorem presence_if_exit_witness:
  "presence_handleIfExit ex_ifElse
     \<lparr>scopeStack = [frame ''Sentinel'' True False,
                    frame ''FunctionExpression, Intent'' False False,
                    frame ''IfStatement > BlockStatement'' True False,
                    frame ''IfStatement > BlockStatement'' True False],
      reporterCalls = []\<rparr> =
   Inr \<lparr>scopeStack = [frame ''Sentinel'' True False,
                       frame ''FunctionExpression, Intent'' True False],
        reporterCalls = []\<rparr>
   \<and> presence_handleIfExit ex_if
     \<lparr>scopeStack = [frame ''Sentinel'' True False,
                    frame ''FunctionExpression, Intent'' False False,
                    frame ''IfStatement > BlockStatement'' True False],
      reporterCalls = []\<rparr> =
   Inr \<lparr>scopeStack = [frame ''Sentinel'' True False,
                       frame ''FunctionExpression, Intent'' False False],
        reporterCalls = []\<rparr>"
  using presence_if_exit [of
      "\<lparr>scopeStack = [frame ''Sentinel'' True False,
                      frame ''FunctionExpression, Intent'' False False,
                      frame ''IfStatement > BlockStatement'' True False,
                      frame ''IfStatement > BlockStatement'' True False],
        reporterCalls = []\<rparr>"
      "[frame ''Sentinel'' True False]" "frame ''FunctionExpression, Intent'' False False"
      "frame ''IfStatement > BlockStatement'' True False"
      "Some (frame ''IfStatement > BlockStatement'' True False)" ex_ifElse]
    presence_if_exit [of
      "\<lparr>scopeStack = [frame ''Sentinel'' True False,
                      frame ''FunctionExpression, Intent'' False False,
                      frame ''IfStatement > BlockStatement'' True False],
        reporterCalls = []\<rparr>"
      "[frame ''Sentinel'' True False]" "frame ''FunctionExpression, Intent'' False False"
      "frame ''IfStatement > BlockStatement'' True False"
      None ex_if]
  by (simp add: frame_def ex_ifElse_def ex_if_def)

section \<open>Invariant violations\<close>

text \<open>
  Claim C6 says that every invariant violation, a merge that does not find the expected
  label on top of the stack included, raises a fatal error and is never skipped in silence.
  For the conditional exit that is not so: \<^verbatim>\<open>_handleIfExit\<close> starts with a guard that
  returns when the top frame carries no \<^verbatim>\<open>IfStatement\<close> label. At the exit of a
  conditional met on the fresh stack (sentinel only) nothing is raised and nothing changes.
\<close>

theorem if_exit_without_frame_is_skipped:
  "\<not> str_includes (event (last (scopeStack count_new))) ''IfStatement'' \<and>
   count_handleIfExit atMostTwo_report [ex_block] ex_if count_new = Inr count_new"
  by (simp add: count_new_def count_createScopeObject_def count_handleIfExit_def currentScope_def)

text \<open>
  Claim C6 as amended. Popping with the sentinel on top (or with an empty stack) raises
  an error; a try/catch exit raises an error when the top frame is not labelled
  \<^verbatim>\<open>CatchClause\<close>, and when the frame under the catch frame is not labelled
  \<^verbatim>\<open>TryStatement\<close>, in both trackers; an error raised by a listener ends the traversal
  with that error. A conditional exit that finds no \<^verbatim>\<open>IfStatement\<close> label on top
  returns normally and leaves the manager as it was, in both trackers. None of this
  depends on the reporter callback, which is not called.
\<close>

theorem invariant_violations:
  "(currentScope m = None \<or> map_option event (currentScope m) = Some ''Sentinel''
      \<longrightarrow> exitScope m = Inl AboutToBePopped)
 \<and> (currentScope mc = Some sc \<and> \<not> str_includes (event sc) ''CatchClause''
      \<longrightarrow> count_handleCatchExit callback node mc = Inl ExpectedCatchOnTop)
 \<and> (scopeStack mt = xs @ [t, c] \<and> str_includes (event c) ''CatchClause''
        \<and> \<not> str_includes (event t) ''TryStatement''
      \<longrightarrow> count_handleCatchExit callback node mt = Inl ExpectedTryOnTop)
 \<and> (currentScope mi = Some si \<and> \<not> str_includes (event si) ''IfStatement''
      \<longrightarrow> count_handleIfExit callback ancestors ifNode mi = Inr mi)
 \<and> (currentScope pc = Some qc \<and> \<not> str_includes (event qc) ''CatchClause''
      \<longrightarrow> presence_handleCatchExit node pc = Inl ExpectedCatchOnTop)
 \<and> (scopeStack pt = ys @ [u, d] \<and> str_includes (event d) ''CatchClause''
        \<and> \<not> str_includes (event u) ''TryStatement''
      \<longrightarrow> presence_handleCatchExit node pt = Inl ExpectedTryOnTop)
 \<and> (currentScope pi = Some qi \<and> \<not> str_includes (event qi) ''IfStatement''
      \<longrightarrow> presence_handleIfExit ifNode pi = Inr pi)
 \<and> (atMostTwo_listener v mv = Inl err
      \<longrightarrow> atMostTwo_lint (OnNode v # vs) mv = Some (Inl err))"
proof (intro conjI impI)
  assume "currentScope m = None \<or> map_option event (currentScope m) = Some ''Sentinel''"
  then show "exitScope m = Inl AboutToBePopped"
    by (auto simp: exitScope_def invariant_def bindE_def)
next
  assume "currentScope mc = Some sc \<and> \<not> str_includes (event sc) ''CatchClause''"
  then show "count_handleCatchExit callback node mc = Inl ExpectedCatchOnTop"
    by (simp add: count_handleCatchExit_def)
next
  assume a: "scopeStack mt = xs @ [t, c] \<and> str_includes (event c) ''CatchClause''
        \<and> \<not> str_includes (event t) ''TryStatement''"
  then have "event c \<noteq> ''Sentinel''" using includes_catch_not_sentinel by blast
  with a show "count_handleCatchExit callback node mt = Inl ExpectedTryOnTop"
    by (simp add: count_handleCatchExit_def engine_defs)
next
  assume "currentScope mi = Some si \<and> \<not> str_includes (event si) ''IfStatement''"
  then show "count_handleIfExit callback ancestors ifNode mi = Inr mi"
    by (simp add: count_handleIfExit_def)
next
  assume "currentScope pc = Some qc \<and> \<not> str_includes (event qc) ''CatchClause''"
  then show "presence_handleCatchExit node pc = Inl ExpectedCatchOnTop"
    by (simp add: presence_handleCatchExit_def)
next
  assume a: "scopeStack pt = ys @ [u, d] \<and> str_includes (event d) ''CatchClause''
        \<and> \<not> str_includes (event u) ''TryStatement''"
  then have "event d \<noteq> ''Sentinel''" using includes_catch_not_sentinel by blast
  with a show "presence_handleCatchExit node pt = Inl ExpectedTryOnTop"
    by (simp add: presence_handleCatchExit_def engine_defs)
next
  assume "currentScope pi = Some qi \<and> \<not> str_includes (event qi) ''IfStatement''"
  then show "presence_handleIfExit ifNode pi = Inr pi"
    by (simp add: presence_handleIfExit_def)
next
  assume "atMostTwo_listener v mv = Inl err"
  then show "atMostTwo_lint (OnNode v # vs) mv = Some (Inl err)"
    by simp
qed

theorem invariant_violations_witness:
  "exitScope count_new = Inl AboutToBePopped
 \<and> count_handleCatchExit atMostTwo_report ex_catch count_new = Inl ExpectedCatchOnTop
 \<and> count_handleCatchExit atMostTwo_report ex_catch
      \<lparr>scopeStack = [frame ''Sentinel'' 0 False, frame ''FunctionDeclaration'' 0 False,
                     frame ''CatchClause'' 0 False], reporterCalls = []\<rparr> = Inl ExpectedTryOnTop
 \<and> count_handleIfExit atMostTwo_report [ex_block] ex_if count_new = Inr count_new
 \<and> presence_handleCatchExit ex_catch
      \<lparr>scopeStack = [frame ''Sentinel'' True False], reporterCalls = []\<rparr> = Inl ExpectedCatchOnTop
 \<and> presence_handleCatchExit ex_catch
      \<lparr>scopeStack = [frame ''Sentinel'' True False, frame ''FunctionDeclaration'' True False,
                     frame ''CatchClause'' True False], reporterCalls = []\<rparr> = Inl ExpectedTryOnTop
 \<and> presence_handleIfExit ex_if
      \<lparr>scopeStack = [frame ''Sentinel'' True False], reporterCalls = []\<rparr>
      = Inr \<lparr>scopeStack = [frame ''Sentinel'' True False], reporterCalls = []\<rparr>
 \<and> atMostTwo_lint
      [ex_visit [] ''FunctionDeclaration:exit'' (ex_node 1 ''FunctionDeclaration''),
       ex_visit [] ''Program:exit'' (ex_node 0 ''Program'')] count_new
      = Some (Inl AboutToBePopped)"
  using invariant_violations [where m = count_new and mc = count_new
      and sc = "frame ''Sentinel'' 0 False" and node = ex_catch and ifNode = ex_if
      and mt = "\<lparr>scopeStack = [frame ''Sentinel'' 0 False, frame ''FunctionDeclaration'' 0 False,
                     frame ''CatchClause'' 0 False], reporterCalls = []\<rparr>"
      and xs = "[frame ''Sentinel'' 0 False]" and t = "frame ''FunctionDeclaration'' 0 False"
      and c = "frame ''CatchClause'' 0 False"
      and mi = count_new and si = "frame ''Sentinel'' 0 False" and ancestors = "[ex_block]"
      and pc = "\<lparr>scopeStack = [frame ''Sentinel'' True False], reporterCalls = []\<rparr>"
      and qc = "frame ''Sentinel'' True False"
      and pt = "\<lparr>scopeStack = [frame ''Sentinel'' True False, frame ''FunctionDeclaration'' True False,
                     frame ''CatchClause'' True False], reporterCalls = []\<rparr>"
      and ys = "[frame ''Sentinel'' True False]" and u = "frame ''FunctionDeclaration'' True False"
      and d = "frame ''CatchClause'' True False"
      and pi = "\<lparr>scopeStack = [frame ''Sentinel'' True False], reporterCalls = []\<rparr>"
      and qi = "frame ''Sentinel'' True False"
      and v = "\<lparr>ctx = \<lparr>getAncestors = [], getScope = LexScope [] None\<rparr>,
                 selector = ''FunctionDeclaration:exit'',
                 visited = ex_node 1 ''FunctionDeclaration'', parentOf = None\<rparr>"
      and mv = count_new and err = AboutToBePopped and callback = atMostTwo_report
      and vs = "[ex_visit [] ''Program:exit'' (ex_node 0 ''Program'')]"]
  by (simp add: count_new_def count_createScopeObject_def frame_def currentScope_def
      atMostTwo_listener_def accountListeners_def ex_visit_def ex_event_def ex_node_def count_account_def
      count_dispatchExit_def exitScope_def invariant_def bindE_def)

section \<open>Stack depth after a traversal\<close>

text \<open>
  Claim C7 says that after the traversal of a well-formed program only the sentinel is left
  on the stack. The rule registers a listener for \<^verbatim>\<open>TryStatement\<close>, which pushes a frame,
  and pops that frame only in the listener of \<^verbatim>\<open>CatchClause:exit\<close>; there is no listener
  for \<^verbatim>\<open>TryStatement:exit\<close>. The complete traversal of
  \<^verbatim>\<open>function f() { try { } finally { } }\<close> therefore ends with two frames: the exit of the
  function pops the frame of the try statement and the frame of the function stays.
  A conditional whose consequent is not a block, an expression statement or a conditional
  gets no frame for the consequent, and with an else block the exit of the conditional pops
  the enclosing frame in its place: the traversal of
  \<^verbatim>\<open>function f(a) { if (a) return; else { } }\<close> ends with the error of popping the
  sentinel when the function is left. Each list below is the sequence of the enter and exit
  events of the statements of the program, in the order of the traversal; the ancestors are
  given where a listener reads them.
\<close>

theorem stack_depth_after_traversal_fails:
  "atMostTwo_lint
     [ex_visit [] ''Program'' (ex_node 0 ''Program''),
      ex_visit [] ''FunctionDeclaration'' (ex_node 1 ''FunctionDeclaration''),
      ex_visit [] ''BlockStatement'' (ex_node 2 ''BlockStatement''),
      ex_visit [] ''TryStatement'' (ex_node 3 ''TryStatement''),
      ex_visit [] ''BlockStatement'' (ex_node 4 ''BlockStatement''),
      ex_visit [] ''BlockStatement:exit'' (ex_node 4 ''BlockStatement''),
      ex_visit [] ''BlockStatement'' (ex_node 5 ''BlockStatement''),
      ex_visit [] ''BlockStatement:exit'' (ex_node 5 ''BlockStatement''),
      ex_visit [] ''TryStatement:exit'' (ex_node 3 ''TryStatement''),
      ex_visit [] ''BlockStatement:exit'' (ex_node 2 ''BlockStatement''),
      ex_visit [] ''FunctionDeclaration:exit'' (ex_node 1 ''FunctionDeclaration''),
      ex_visit [] ''Program:exit'' (ex_node 0 ''Program'')]
     count_new
   = Some (Inr \<lparr>scopeStack = [frame ''Sentinel'' 0 False,
                                 frame ''FunctionDeclaration'' 0 False],
                  reporterCalls = []\<rparr>)
 \<and> atMostTwo_lint
     [ex_visit [] ''Program'' (ex_node 0 ''Program''),
      ex_visit [] ''FunctionDeclaration'' (ex_node 1 ''FunctionDeclaration''),
      ex_visit [] ''BlockStatement'' (ex_node 2 ''BlockStatement''),
      ex_visit [] ''IfStatement'' \<lparr>nodeId = 3, nodeType = ''IfStatement'', alternate = Some 5\<rparr>,
      ex_visit [] ''ReturnStatement'' (ex_node 4 ''ReturnStatement''),
      ex_visit [] ''ReturnStatement:exit'' (ex_node 4 ''ReturnStatement''),
      ex_visit [] ''IfStatement > BlockStatement'' (ex_node 5 ''BlockStatement''),
      ex_visit [] ''BlockStatement:exit'' (ex_node 5 ''BlockStatement''),
      ex_visit [ex_node 0 ''Program'', ex_node 1 ''FunctionDeclaration'', ex_node 2 ''BlockStatement'']
        ''IfStatement:exit'' \<lparr>nodeId = 3, nodeType = ''IfStatement'', alternate = Some 5\<rparr>,
      ex_visit [] ''BlockStatement:exit'' (ex_node 2 ''BlockStatement''),
      ex_visit [] ''FunctionDeclaration:exit'' (ex_node 1 ''FunctionDeclaration''),
      ex_visit [] ''Program:exit'' (ex_node 0 ''Program'')]
     count_new
   = Some (Inl AboutToBePopped)"
  by (simp add: atMostTwo_listener_def accountListeners_def functionListeners_def ex_visit_def ex_event_def
      ex_node_def count_account_def count_dispatchExit_def count_enterScope_def count_new_def
      count_createScopeObject_def frame_def engine_defs count_handleIfExit_def Let_def
      isInsideIfElseStatement_def undoChangesIfThereIsReturnStatement_def)


text \<open>
  The frame that stays behind is never merged into its parent: for
  \<^verbatim>\<open>conv.ask('1'); conv.ask('2'); try { conv.ask('3'); } finally { }\<close> the third response
  is counted in the frame of the try statement, and nothing is reported.
\<close>

lemma try_finally_hides_a_response:
  "\<exists>m. atMostTwo_lint
         [ex_ask 1 Literal,
          ex_ask 2 Literal,
          ex_visit [] ''TryStatement'' (ex_node 3 ''TryStatement''),
          ex_ask 4 Literal,
          ex_visit [] ''TryStatement:exit'' (ex_node 3 ''TryStatement'')]
         count_new = Some (Inr m)
       \<and> map event (scopeStack m) = [''Sentinel'', ''TryStatement'']
       \<and> map metadata (scopeStack m) = [2, 1] \<and> atMostTwo_violations m = []"
  by (simp add: atMostTwo_listener_def accountListeners_def functionListeners_def ex_visit_def ex_event_def
      ex_node_def count_account_def count_enterScope_def count_new_def
      count_createScopeObject_def engine_defs
      ex_ask_def atMostTwo_CallExpression_def doesReturnActionResponse_def field_def
      classify_def isSimpleResponse.simps isString_def createResponse_def atMostTwo_report_def
      atMostTwo_violations_def List.map_filter_def)

section \<open>Regions that keep the stack\<close>

text \<open>
  On the regions above the stack discipline works: the traversal of a well-formed region
  either returns and leaves the labels of the frames on the stack as they were, or ends
  with the error of a report without node and with no other error. A program made of such
  regions that is linted to its end therefore ends with the sentinel alone. The two
  programs of the previous section are outside of these regions.
\<close>

lemma lint_append:
  "atMostTwo_lint (xs @ ys) m =
     (case atMostTwo_lint xs m of Some (Inr m') \<Rightarrow> atMostTwo_lint ys m' | r \<Rightarrow> r)"
proof (induction xs arbitrary: m)
  case Nil
  show ?case by simp
next
  case (Cons x xs)
  show ?case
    by (cases x) (auto simp: Cons.IH split: sum.splits option.splits)
qed

lemma endsWithLabels_cases:
  assumes "endsWithLabels r ls"
  obtains "r = Some (Inl NodeMustBeProvided)"
    | m' where "r = Some (Inr m')" "map event (scopeStack m') = ls"
  using assms by (auto simp: endsWithLabels_def split: option.splits sum.splits)

lemma endsWithLabels_returned:
  "map event (scopeStack m') = ls \<Longrightarrow> endsWithLabels (Some (Inr m')) ls"
  by (simp add: endsWithLabels_def)

lemma endsWithLabels_refused: "endsWithLabels (Some (Inl NodeMustBeProvided)) ls"
  by (simp add: endsWithLabels_def)

lemma lint_then:
  assumes "endsWithLabels (atMostTwo_lint xs m) ls"
    and "\<And>m1. atMostTwo_lint xs m = Some (Inr m1) \<Longrightarrow> map event (scopeStack m1) = ls \<Longrightarrow>
           endsWithLabels (atMostTwo_lint ys m1) ls'"
  shows "endsWithLabels (atMostTwo_lint (xs @ ys) m) ls'"
  using assms(1)
proof (cases rule: endsWithLabels_cases)
  case 1
  then show ?thesis by (simp add: lint_append endsWithLabels_refused)
next
  case (2 m1)
  then show ?thesis using assms(2) by (simp add: lint_append)
qed

lemma lint_exit:
  assumes "endsWithLabels (Some (atMostTwo_listener ex m)) ls"
  shows "endsWithLabels (atMostTwo_lint [OnNode ex] m) ls"
  using assms by (auto simp: endsWithLabels_def split: sum.splits)

lemma labels_assign:
  assumes "scopeStack m \<noteq> []" and "\<And>s. event (f s) = event s"
  shows "\<exists>m'. assignCurrent f m = Inr m' \<and> map event (scopeStack m') = map event (scopeStack m)"
proof -
  have "map event (butlast (scopeStack m) @ [f (last (scopeStack m))])
          = map event (butlast (scopeStack m) @ [last (scopeStack m)])"
    using assms(2) by simp
  then show ?thesis using assms(1) by (simp add: assignCurrent_def currentScope_def)
qed

lemma labels_report:
  assumes "scopeStack m \<noteq> []"
  shows "reporterFn atMostTwo_report None m = Inl NodeMustBeProvided
       \<or> (\<exists>m'. reporterFn atMostTwo_report None m = Inr m' \<and> scopeStack m' = scopeStack m)"
  using assms
  by (auto simp: atMostTwo_report_def currentScope_def reporterFn_def split: option.splits)

lemma labels_exit:
  assumes "map event (scopeStack m) = ls @ [l]" and "l \<noteq> ''Sentinel''"
  shows "\<exists>m'. exitScope m = Inr m' \<and> map event (scopeStack m') = ls"
proof -
  from assms(1) obtain rest s where st: "scopeStack m = rest @ [s]" and "map event rest = ls" "event s = l"
    by (auto simp: map_eq_append_conv)
  then show ?thesis using assms(2)
    by (simp add: engine_defs)
qed

lemma doesReturnActionResponse_total: "\<exists>b. doesReturnActionResponse (Some c) = Inr b"
proof (cases "ntype c = ''CallExpression''")
  case False
  then show ?thesis by (auto simp: doesReturnActionResponse_def)
next
  case True
  then obtain cal as where c: "c = CallExpression cal as" using ntype_call by blast
  show ?thesis
  proof (cases "ntype cal = ''MemberExpression''")
    case False
    then show ?thesis using c by (auto simp: doesReturnActionResponse_def field_def bindE_def)
  next
    case True
    then obtain ob p where "cal = MemberExpression ob p"
      using ntype_other by (cases cal) (auto simp: classifiedTypes_def)
    then show ?thesis using c by (auto simp: doesReturnActionResponse_def field_def bindE_def)
  qed
qed

lemma labels_arguments:
  assumes "list_all (\<lambda>a. returns (classify sc a)) as" and "scopeStack m \<noteq> []"
  shows "endsWithLabels (atMostTwo_arguments sc cal as m) (map event (scopeStack m))"
  using assms
proof (induction as arbitrary: m)
  case Nil
  then show ?case by (simp add: endsWithLabels_def)
next
  case (Cons a as)
  from Cons.prems obtain r where r: "classify sc a = Some (Inr r)"
    by (auto simp: returns_def split: option.splits sum.splits)
  obtain m1 where m1: "(if certain r \<and> result r
                       then assignCurrent
                              (\<lambda>s. s\<lparr>metadata := metadata s + 1,
                                     lastViolatingNode := Some cal\<rparr>) m
                       else Inr m) = Inr m1" "map event (scopeStack m1) = map event (scopeStack m)"
    using labels_assign [OF Cons.prems(2), of "\<lambda>s. s\<lparr>metadata := metadata s + 1, lastViolatingNode := Some cal\<rparr>"]
    by (cases "certain r \<and> result r") auto
  then have ne1: "scopeStack m1 \<noteq> []" using Cons.prems(2) by (metis map_is_Nil_conv)
  from labels_report [OF ne1] show ?case
  proof
    assume "reporterFn atMostTwo_report None m1 = Inl NodeMustBeProvided"
    then show ?thesis using r m1 by (simp add: bindE_def endsWithLabels_def)
  next
    assume "\<exists>m'. reporterFn atMostTwo_report None m1 = Inr m' \<and> scopeStack m' = scopeStack m1"
    then obtain m2 where m2: "reporterFn atMostTwo_report None m1 = Inr m2"
      "scopeStack m2 = scopeStack m1" by blast
    have ne2: "scopeStack m2 \<noteq> []" using m2 ne1 by simp
    from Cons.IH [OF _ ne2] Cons.prems(1)
    have "endsWithLabels (atMostTwo_arguments sc cal as m2) (map event (scopeStack m2))" by simp
    then show ?thesis using r m1 m2 by (simp add: bindE_def)
  qed
qed

lemma labels_call:
  assumes "wellFormed (Call sc c cal)" and "scopeStack m \<noteq> []"
  shows "endsWithLabels (atMostTwo_CallExpression sc c cal m) (map event (scopeStack m))"
proof -
  obtain b where b: "doesReturnActionResponse (Some c) = Inr b"
    using doesReturnActionResponse_total by blast
  show ?thesis
  proof (cases b)
    case False
    then show ?thesis using b by (simp add: atMostTwo_CallExpression_def endsWithLabels_def)
  next
    case True
    then have "ntype c = ''CallExpression''" using b
      by (auto simp: doesReturnActionResponse_def split: if_splits)
    then obtain cal' as where c: "c = CallExpression cal' as" using ntype_call by blast
    then have "list_all (\<lambda>a. returns (classify sc a)) as" using assms(1) by simp
    from labels_arguments [OF this assms(2)] show ?thesis
      using b True c by (simp add: atMostTwo_CallExpression_def)
  qed
qed

lemma count_handleIfExit_labels:
  assumes st: "scopeStack m =
                 rest @ parent # ifScope # (case elseOpt of None \<Rightarrow> [] | Some e \<Rightarrow> [e])"
    and alt: "(elseOpt = None) = (alternate node = None)"
    and lab: "str_includes (event ifScope) ''IfStatement''"
    and labE: "\<forall>e. elseOpt = Some e \<longrightarrow> str_includes (event e) ''IfStatement''"
    and ch: "ancestors \<noteq> []"
  shows "\<exists>m'. count_handleIfExit atMostTwo_report ancestors node m = Inr m' \<and>
      map event (scopeStack m') = map event rest @ [event parent]"
proof (cases elseOpt)
  case None
  have a: "alternate node = None" using alt None by simp
  have ne: "event ifScope \<noteq> ''Sentinel''" using lab includes_if_not_sentinel by blast
  show ?thesis
    using None a lab ch ne
    by (simp add: count_handleIfExit_def engine_defs st Let_def isInsideIfElseStatement_def
        undoChangesIfThereIsReturnStatement_def atMostTwo_report_def)
next
  case (Some e)
  have a: "alternate node \<noteq> None" using alt Some by simp
  have ne: "event ifScope \<noteq> ''Sentinel''" using lab includes_if_not_sentinel by blast
  have le: "str_includes (event e) ''IfStatement''" using labE Some by auto
  have nee: "event e \<noteq> ''Sentinel''" using le includes_if_not_sentinel by blast
  show ?thesis
    using Some a lab ch ne le nee
    by (simp add: count_handleIfExit_def engine_defs st Let_def isInsideIfElseStatement_def
        undoChangesIfThereIsReturnStatement_def atMostTwo_report_def)
qed

lemma listener_enter:
  assumes "selector v \<in> set branchSelectors \<or> selector v = ''TryStatement''
           \<or> selector v = ''CatchClause'' \<or> selector v = ''FunctionDeclaration''
           \<or> selector v = ''MethodDefinition''"
  shows "atMostTwo_listener v m = Inr (count_enterScope (selector v) m)"
  using assms
  by (auto simp: atMostTwo_listener_def accountListeners_def branchSelectors_def count_account_def)

lemma branch_label: "l \<in> set branchSelectors \<Longrightarrow> str_includes l ''IfStatement''"
  by (auto simp: branchSelectors_def)

lemma listener_if_exit:
  assumes "ifExit ex"
  shows "atMostTwo_listener ex m =
           count_handleIfExit atMostTwo_report (getAncestors (ctx ex)) (visited ex) m"
  using assms
  by (simp add: ifExit_def atMostTwo_listener_def accountListeners_def count_account_def
      count_dispatchExit_def)

lemma listener_catch_exit:
  assumes "selector ex = ''CatchClause:exit''" "nodeType (visited ex) = ''CatchClause''"
  shows "atMostTwo_listener ex m = count_handleCatchExit atMostTwo_report (visited ex) m"
  using assms
  by (simp add: atMostTwo_listener_def accountListeners_def count_account_def
      count_dispatchExit_def)

lemma listener_plain:
  assumes "wellFormed (Plain v)" "scopeStack m \<noteq> []"
  shows "\<exists>m'. atMostTwo_listener v m = Inr m' \<and> map event (scopeStack m') = map event (scopeStack m)"
proof (cases "selector v = ''ReturnStatement''")
  case True
  then have "atMostTwo_listener v m = assignCurrent (\<lambda>s. s\<lparr>hasReturnStatement := True\<rparr>) m"
    by (simp add: atMostTwo_listener_def accountListeners_def count_account_def)
  then show ?thesis using labels_assign [OF assms(2), of "\<lambda>s. s\<lparr>hasReturnStatement := True\<rparr>"] by simp
next
  case False
  then show ?thesis using assms(1) by (simp add: atMostTwo_listener_def)
qed

lemma listener_function:
  assumes "functionPair enter exit"
  shows "\<exists>l. l \<noteq> ''Sentinel'' \<and> (\<forall>m. atMostTwo_listener enter m = Inr (count_enterScope l m))
           \<and> (\<forall>m. atMostTwo_listener exit m = exitScope m)"
proof -
  have ex_sel: "selector exit = selector enter @ '':exit''"
    and nt: "nodeType (visited exit) \<noteq> ''IfStatement''" "nodeType (visited exit) \<noteq> ''CatchClause''"
    using assms by (auto simp: functionPair_def)
  consider (decl) "selector enter = ''FunctionDeclaration'' \<or> selector enter = ''MethodDefinition''"
    | (expr) "selector enter = ''FunctionExpression'' \<or> selector enter = ''ArrowFunctionExpression''"
        "succeeds (isNodeIntentHandler (getScope (ctx enter)) (parentOf enter))"
        "succeeds (isNodeIntentHandler (getScope (ctx exit)) (parentOf exit))"
    using assms by (auto simp: functionPair_def)
  then show ?thesis
  proof cases
    case decl
    then have "\<forall>m. atMostTwo_listener exit m = exitScope m"
      using ex_sel nt
      by (auto simp: atMostTwo_listener_def accountListeners_def count_account_def
          count_dispatchExit_def)
    moreover have "\<forall>m. atMostTwo_listener enter m = Inr (count_enterScope (selector enter) m)"
      using decl listener_enter by blast
    moreover have "selector enter \<noteq> ''Sentinel''" using decl by auto
    ultimately show ?thesis by blast
  next
    case expr
    from expr(2,3) obtain b b' where
      b: "isNodeIntentHandler (getScope (ctx enter)) (parentOf enter) = Inr b"
      and b': "isNodeIntentHandler (getScope (ctx exit)) (parentOf exit) = Inr b'"
      by (auto simp: succeeds_def split: sum.splits)
    have "\<forall>m. atMostTwo_listener exit m = exitScope m"
      using expr(1) ex_sel nt b'
      by (auto simp: atMostTwo_listener_def accountListeners_def functionListeners_def
          count_account_def count_dispatchExit_def bindE_def)
    moreover have "\<forall>m. atMostTwo_listener enter m =
        Inr (count_enterScope (if b then selector enter @ '', Intent'' else selector enter) m)"
      using expr(1) b
      by (auto simp: atMostTwo_listener_def accountListeners_def functionListeners_def
          count_account_def bindE_def)
    moreover have "(if b then selector enter @ '', Intent'' else selector enter) \<noteq> ''Sentinel''"
      using expr(1) by auto
    ultimately show ?thesis by blast
  qed
qed

lemma lint_list:
  assumes "\<And>r m. r \<in> set rs \<Longrightarrow> scopeStack m \<noteq> [] \<Longrightarrow>
             endsWithLabels (atMostTwo_lint (events r) m) (map event (scopeStack m))"
    and "scopeStack m \<noteq> []"
  shows "endsWithLabels (atMostTwo_lint (concat (map events rs)) m) (map event (scopeStack m))"
  using assms
proof (induction rs arbitrary: m)
  case Nil
  then show ?case by (simp add: endsWithLabels_def)
next
  case (Cons r rs)
  have first: "endsWithLabels (atMostTwo_lint (events r) m) (map event (scopeStack m))"
    using Cons.prems(1) [of r m] Cons.prems(2) by simp
  have "endsWithLabels (atMostTwo_lint (events r @ concat (map events rs)) m)
          (map event (scopeStack m))"
  proof (rule lint_then [OF first])
    fix m1 :: "int ScopeManager"
    assume m1: "atMostTwo_lint (events r) m = Some (Inr m1)"
      "map event (scopeStack m1) = map event (scopeStack m)"
    then have ne: "scopeStack m1 \<noteq> []" using Cons.prems(2) by (metis map_is_Nil_conv)
    from Cons.IH [OF _ ne] Cons.prems(1)
    have "endsWithLabels (atMostTwo_lint (concat (map events rs)) m1) (map event (scopeStack m1))"
      by simp
    then show "endsWithLabels (atMostTwo_lint (concat (map events rs)) m1)
                 (map event (scopeStack m))"
      using m1(2) by simp
  qed
  then show ?case by simp
qed

lemma lint_framed:
  assumes body: "\<And>m. scopeStack m \<noteq> [] \<Longrightarrow>
             endsWithLabels (atMostTwo_lint steps m) (map event (scopeStack m))"
    and enter: "atMostTwo_listener v m = Inr (count_enterScope l m)"
  shows "endsWithLabels (atMostTwo_lint (OnNode v # steps) m) (map event (scopeStack m) @ [l])"
proof -
  have "scopeStack (count_enterScope l m) \<noteq> []" by (simp add: count_enterScope_def)
  from body [OF this]
  have "endsWithLabels (atMostTwo_lint steps (count_enterScope l m))
          (map event (scopeStack (count_enterScope l m)))" .
  then show ?thesis using enter
    by (simp add: count_enterScope_def count_createScopeObject_def)
qed

lemma if_exit_then:
  assumes "ifExit ex" "alternate (visited ex) = None"
    and "map event (scopeStack m) = ls @ [c]" "ls \<noteq> []" "str_includes c ''IfStatement''"
  shows "\<exists>m'. atMostTwo_listener ex m = Inr m' \<and> map event (scopeStack m') = ls"
proof -
  from assms(3) obtain rest' ifScope where
    "scopeStack m = rest' @ [ifScope]" "map event rest' = ls" "event ifScope = c"
    by (auto simp: map_eq_append_conv)
  moreover from this assms(4) obtain rest parent where "rest' = rest @ [parent]"
    by (metis map_is_Nil_conv rev_exhaust)
  ultimately have st: "scopeStack m = rest @ parent # ifScope # (case None of None \<Rightarrow> [] | Some e \<Rightarrow> [e])"
    and ls: "ls = map event rest @ [event parent]" and c: "event ifScope = c" by auto
  have "getAncestors (ctx ex) \<noteq> []" using assms(1) by (simp add: ifExit_def)
  from count_handleIfExit_labels [OF st _ _ _ this, of "visited ex"] assms(2,5) c ls
  show ?thesis by (simp add: listener_if_exit [OF assms(1)])
qed

lemma if_exit_else:
  assumes "ifExit ex" "alternate (visited ex) \<noteq> None"
    and "map event (scopeStack m) = ls @ [c, e]" "ls \<noteq> []"
    and "str_includes c ''IfStatement''" "str_includes e ''IfStatement''"
  shows "\<exists>m'. atMostTwo_listener ex m = Inr m' \<and> map event (scopeStack m') = ls"
proof -
  from assms(3) obtain rest' ifScope elseScope where
    "scopeStack m = rest' @ [ifScope, elseScope]" "map event rest' = ls"
    "event ifScope = c" "event elseScope = e"
    by (auto simp: map_eq_append_conv)
  moreover from this assms(4) obtain rest parent where "rest' = rest @ [parent]"
    by (metis map_is_Nil_conv rev_exhaust)
  ultimately have st: "scopeStack m =
      rest @ parent # ifScope # (case Some elseScope of None \<Rightarrow> [] | Some e \<Rightarrow> [e])"
    and ls: "ls = map event rest @ [event parent]"
    and c: "event ifScope = c" "event elseScope = e" by auto
  have "getAncestors (ctx ex) \<noteq> []" using assms(1) by (simp add: ifExit_def)
  from count_handleIfExit_labels [OF st _ _ _ this, of "visited ex"] assms(2,5,6) c ls
  show ?thesis by (simp add: listener_if_exit [OF assms(1)])
qed

text \<open>
  The exit of a catch clause pops both frames and ends with the call of the reporter, which
  returns or is refused a report without node.
\<close>

lemma catch_exit:
  assumes "selector ex = ''CatchClause:exit''" "nodeType (visited ex) = ''CatchClause''"
    and "map event (scopeStack m) = ls @ [''TryStatement'', ''CatchClause'']" "ls \<noteq> []"
  shows "endsWithLabels (Some (atMostTwo_listener ex m)) ls"
proof -
  from assms(3) obtain rest' tryScope catchScope where
    "scopeStack m = rest' @ [tryScope, catchScope]" "map event rest' = ls"
    "event tryScope = ''TryStatement''" "event catchScope = ''CatchClause''"
    by (auto simp: map_eq_append_conv)
  moreover from this assms(4) obtain rest parent where "rest' = rest @ [parent]"
    by (metis map_is_Nil_conv rev_exhaust)
  ultimately have st: "scopeStack m = rest @ [parent, tryScope, catchScope]"
    and ls: "ls = map event rest @ [event parent]"
    and c: "event tryScope = ''TryStatement''" "event catchScope = ''CatchClause''" by auto
  have "str_includes (event catchScope) ''CatchClause''" "str_includes (event tryScope) ''TryStatement''"
    using c by simp_all
  from count_handleCatchExit_frames [OF st this, of atMostTwo_report "visited ex"] ls
  show ?thesis
    by (auto simp: listener_catch_exit [OF assms(1,2)] atMostTwo_report_def currentScope_def
        endsWithLabels_def split: option.splits)
qed

lemma wellFormed_keeps_labels:
  "wellFormed r \<Longrightarrow> scopeStack m \<noteq> [] \<Longrightarrow>
     endsWithLabels (atMostTwo_lint (events r) m) (map event (scopeStack m))"
proof (induction r arbitrary: m)
  case (Call sc c cal)
  from labels_call [OF Call.prems] show ?case
    by (auto simp: endsWithLabels_def split: option.splits sum.splits)
next
  case (Plain v)
  then show ?case using listener_plain [of v m] by (auto simp: endsWithLabels_def)
next
  case (Function enter body exit)
  have wf: "functionPair enter exit" "list_all wellFormed body" using Function.prems by auto
  have body: "\<And>m. scopeStack m \<noteq> [] \<Longrightarrow>
      endsWithLabels (atMostTwo_lint (concat (map events body)) m) (map event (scopeStack m))"
    using lint_list [of body] Function.IH wf(2) by (simp add: list_all_iff)
  from listener_function [OF wf(1)] obtain l where l: "l \<noteq> ''Sentinel''"
    "\<And>m. atMostTwo_listener enter m = Inr (count_enterScope l m)"
    "\<And>m. atMostTwo_listener exit m = exitScope m" by blast
  have "endsWithLabels
          (atMostTwo_lint ((OnNode enter # concat (map events body)) @ [OnNode exit]) m)
          (map event (scopeStack m))"
  proof (rule lint_then [OF lint_framed [OF body l(2)]])
    fix m1 :: "int ScopeManager"
    assume "map event (scopeStack m1) = map event (scopeStack m) @ [l]"
    from labels_exit [OF this l(1)] l(3)
    show "endsWithLabels (atMostTwo_lint [OnNode exit] m1) (map event (scopeStack m))"
      by (auto simp: endsWithLabels_def)
  qed
  then show ?case by simp
next
  case (IfThen consequent body exit)
  have wf: "selector consequent \<in> set branchSelectors" "ifExit exit"
    "alternate (visited exit) = None" "list_all wellFormed body" using IfThen.prems by auto
  have body: "\<And>m. scopeStack m \<noteq> [] \<Longrightarrow>
      endsWithLabels (atMostTwo_lint (concat (map events body)) m) (map event (scopeStack m))"
    using lint_list [of body] IfThen.IH wf(4) by (simp add: list_all_iff)
  have en: "atMostTwo_listener consequent m = Inr (count_enterScope (selector consequent) m)"
    using listener_enter wf(1) by blast
  have ne: "map event (scopeStack m) \<noteq> []" using IfThen.prems(2) by simp
  have "endsWithLabels
          (atMostTwo_lint ((OnNode consequent # concat (map events body)) @ [OnNode exit]) m)
          (map event (scopeStack m))"
  proof (rule lint_then [OF lint_framed [OF body en]])
    fix m1 :: "int ScopeManager"
    assume "map event (scopeStack m1) = map event (scopeStack m) @ [selector consequent]"
    from if_exit_then [OF wf(2,3) this ne branch_label [OF wf(1)]]
    show "endsWithLabels (atMostTwo_lint [OnNode exit] m1) (map event (scopeStack m))"
      by (auto simp: endsWithLabels_def)
  qed
  then show ?case by simp
next
  case (IfThenElse consequent body alt altBody exit)
  have wf: "selector consequent \<in> set branchSelectors" "selector alt \<in> set branchSelectors"
    "ifExit exit" "alternate (visited exit) \<noteq> None" "list_all wellFormed body"
    "list_all wellFormed altBody" using IfThenElse.prems by auto
  have body: "\<And>m. scopeStack m \<noteq> [] \<Longrightarrow>
      endsWithLabels (atMostTwo_lint (concat (map events body)) m) (map event (scopeStack m))"
    using lint_list [of body] IfThenElse.IH(1) wf(5) by (simp add: list_all_iff)
  have altBody: "\<And>m. scopeStack m \<noteq> [] \<Longrightarrow>
      endsWithLabels (atMostTwo_lint (concat (map events altBody)) m) (map event (scopeStack m))"
    using lint_list [of altBody] IfThenElse.IH(2) wf(6) by (simp add: list_all_iff)
  have en: "atMostTwo_listener consequent m = Inr (count_enterScope (selector consequent) m)"
    using listener_enter wf(1) by blast
  have ne: "map event (scopeStack m) \<noteq> []" using IfThenElse.prems(2) by simp
  have "endsWithLabels
          (atMostTwo_lint ((OnNode consequent # concat (map events body)) @
             (OnNode alt # concat (map events altBody)) @ [OnNode exit]) m)
          (map event (scopeStack m))"
  proof (rule lint_then [OF lint_framed [OF body en]])
    fix m1 :: "int ScopeManager"
    assume m1: "map event (scopeStack m1) = map event (scopeStack m) @ [selector consequent]"
    have en2: "atMostTwo_listener alt m1 = Inr (count_enterScope (selector alt) m1)"
      using listener_enter wf(2) by blast
    show "endsWithLabels
            (atMostTwo_lint ((OnNode alt # concat (map events altBody)) @ [OnNode exit]) m1)
            (map event (scopeStack m))"
    proof (rule lint_then [OF lint_framed [OF altBody en2]])
      fix m2 :: "int ScopeManager"
      assume "map event (scopeStack m2) = map event (scopeStack m1) @ [selector alt]"
      then have "map event (scopeStack m2) =
          map event (scopeStack m) @ [selector consequent, selector alt]"
        using m1 by simp
      from if_exit_else [OF wf(3,4) this ne branch_label [OF wf(1)] branch_label [OF wf(2)]]
      show "endsWithLabels (atMostTwo_lint [OnNode exit] m2) (map event (scopeStack m))"
        by (auto simp: endsWithLabels_def)
    qed
  qed
  then show ?case by simp
next
  case (TryCatch tryV block catchV handler exit)
  have wf: "selector tryV = ''TryStatement''" "selector catchV = ''CatchClause''"
    "selector exit = ''CatchClause:exit''" "nodeType (visited exit) = ''CatchClause''"
    "list_all wellFormed block" "list_all wellFormed handler" using TryCatch.prems by auto
  have block: "\<And>m. scopeStack m \<noteq> [] \<Longrightarrow>
      endsWithLabels (atMostTwo_lint (concat (map events block)) m) (map event (scopeStack m))"
    using lint_list [of block] TryCatch.IH(1) wf(5) by (simp add: list_all_iff)
  have handler: "\<And>m. scopeStack m \<noteq> [] \<Longrightarrow>
      endsWithLabels (atMostTwo_lint (concat (map events handler)) m) (map event (scopeStack m))"
    using lint_list [of handler] TryCatch.IH(2) wf(6) by (simp add: list_all_iff)
  have en: "atMostTwo_listener tryV m = Inr (count_enterScope (selector tryV) m)"
    using listener_enter wf(1) by blast
  have ne: "map event (scopeStack m) \<noteq> []" using TryCatch.prems(2) by simp
  have "endsWithLabels
          (atMostTwo_lint ((OnNode tryV # concat (map events block)) @
             (OnNode catchV # concat (map events handler)) @ [OnNode exit]) m)
          (map event (scopeStack m))"
  proof (rule lint_then [OF lint_framed [OF block en]])
    fix m1 :: "int ScopeManager"
    assume m1: "map event (scopeStack m1) = map event (scopeStack m) @ [selector tryV]"
    have en2: "atMostTwo_listener catchV m1 = Inr (count_enterScope (selector catchV) m1)"
      using listener_enter wf(2) by blast
    show "endsWithLabels
            (atMostTwo_lint ((OnNode catchV # concat (map events handler)) @ [OnNode exit]) m1)
            (map event (scopeStack m))"
    proof (rule lint_then [OF lint_framed [OF handler en2]])
      fix m2 :: "int ScopeManager"
      assume "map event (scopeStack m2) = map event (scopeStack m1) @ [selector catchV]"
      then have "map event (scopeStack m2) =
          map event (scopeStack m) @ [''TryStatement'', ''CatchClause'']"
        using m1 wf(1,2) by simp
      from lint_exit [OF catch_exit [OF wf(3,4) this ne]]
      show "endsWithLabels (atMostTwo_lint [OnNode exit] m2) (map event (scopeStack m))" .
    qed
  qed
  then show ?case by simp
qed

lemma wellFormed_program_ends_with_sentinel:
  assumes "list_all wellFormed rs"
  shows "endsWithLabels (atMostTwo_lint (concat (map events rs)) count_new) [''Sentinel'']"
proof -
  have ne: "scopeStack count_new \<noteq> []" by (simp add: count_new_def)
  have "endsWithLabels (atMostTwo_lint (concat (map events rs)) count_new)
          (map event (scopeStack count_new))"
    using lint_list [of rs count_new] wellFormed_keeps_labels assms ne
    by (simp add: list_all_iff)
  then show ?thesis by (simp add: count_new_def count_createScopeObject_def)
qed

text \<open>
  A try statement with a catch clause is such a region, and its traversal is the one that
  can end with the refused report: for
  \<^verbatim>\<open>try { conv.ask('1'); } catch (e) { conv.ask('2'); conv.ask('3'); conv.ask('4'); }\<close>
  the third response of the catch clause is reported at its call, and the exit of the catch
  clause then raises the count of the sentinel frame, which has no violating node, to 3.
\<close>

lemma try_catch_wellFormed: "wellFormed ex_tryCatch"
  by (simp add: ex_tryCatch_def ex_event_def ex_call_def ex_node_def ex_catch_def returns_def
      classify_def isSimpleResponse.simps isString_def createResponse_def)

lemma try_catch_report_without_node:
  "atMostTwo_lint (events ex_tryCatch) count_new = Some (Inl NodeMustBeProvided)"
  by (simp add: ex_tryCatch_def ex_event_def ex_call_def ex_catch_def
      atMostTwo_listener_def accountListeners_def
      ex_node_def count_account_def count_dispatchExit_def count_enterScope_def count_new_def
      count_createScopeObject_def engine_defs count_handleCatchExit_def
      atMostTwo_CallExpression_def doesReturnActionResponse_def field_def
      classify_def isSimpleResponse.simps isString_def createResponse_def atMostTwo_report_def)

text \<open>
  The else-if chain of the tests is such a region. It is linted without a violation, and the
  frame of the function has count 2 when the function is left: 1 for the conditional, whose
  returning branch is not counted, and 1 for the response after it.
\<close>

lemma else_if_chain_wellFormed: "wellFormed ex_chain"
  by (simp add: ex_chain_def ex_event_def ex_call_def ex_if_def ex_outerIf_def ex_node_def
      functionPair_def ifExit_def branchSelectors_def returns_def classify_def
      isSimpleResponse.simps isString_def createResponse_def)

lemma else_if_chain_ends_with_sentinel:
  "\<exists>m'. atMostTwo_lint (events ex_chain) count_new = Some (Inr m')
        \<and> map event (scopeStack m') = [''Sentinel'']"
  by (simp add: ex_chain_def ex_event_def ex_call_def ex_if_def ex_outerIf_def ex_block_def
      atMostTwo_listener_def accountListeners_def
      ex_node_def count_account_def count_dispatchExit_def count_enterScope_def count_new_def
      count_createScopeObject_def engine_defs count_handleIfExit_def Let_def
      isInsideIfElseStatement_def undoChangesIfThereIsReturnStatement_def
      atMostTwo_CallExpression_def doesReturnActionResponse_def field_def
      classify_def isSimpleResponse.simps isString_def createResponse_def atMostTwo_report_def)

lemma else_if_chain_no_violation:
  "\<exists>m'. atMostTwo_lint (butlast (events ex_chain)) count_new = Some (Inr m')
        \<and> map metadata (scopeStack m') = [0, 2] \<and> atMostTwo_violations m' = []"
  by (simp add: ex_chain_def ex_event_def ex_call_def ex_if_def ex_outerIf_def ex_block_def
      atMostTwo_listener_def accountListeners_def
      ex_node_def count_account_def count_dispatchExit_def count_enterScope_def count_new_def
      count_createScopeObject_def engine_defs count_handleIfExit_def Let_def
      isInsideIfElseStatement_def undoChangesIfThereIsReturnStatement_def
      atMostTwo_CallExpression_def doesReturnActionResponse_def field_def
      classify_def isSimpleResponse.simps isString_def createResponse_def atMostTwo_report_def
      atMostTwo_violations_def List.map_filter_def)

section \<open>The simple-response classifier\<close>

text \<open>
  Claim C8 says that \<^verbatim>\<open>classify\<close> answers \<^verbatim>\<open>certain = false\<close> exactly for calls, member
  accesses, spread elements and identifiers whose binding cannot be resolved, and
  \<^verbatim>\<open>{certain: true, result: true}\<close> for every literal, string concatenation and template.
  In the scope of \<^verbatim>\<open>let a = foo()\<close> the binding of \<^verbatim>\<open>a\<close> is resolved, to the call
  \<^verbatim>\<open>foo()\<close>, and \<^verbatim>\<open>a\<close> is classified with \<^verbatim>\<open>certain = false\<close>: a resolved identifier gets
  the answer of its initialiser. And the concatenation \<^verbatim>\<open>'x' + b + c\<close>, whose operands are
  the concatenation \<^verbatim>\<open>'x' + b\<close> and the identifier \<^verbatim>\<open>c\<close>, is classified
  \<^verbatim>\<open>{certain: true, result: false}\<close>, because \<^verbatim>\<open>_isString\<close> looks at the types of the two
  operands only.
\<close>

theorem classify_resolved_identifier_uncertain:
  "findVariableNodeValue ex_scope (Identifier ''a'') = Inr (Some (CallExpression (Identifier ''foo'') []))
  \<and> classify ex_scope (Identifier ''a'') = Some (Inr \<lparr>certain = False, result = False\<rparr>)
  \<and> classify ex_scope (BinaryExpression (BinaryExpression Literal (Identifier ''b'')) (Identifier ''c''))
       = Some (Inr \<lparr>certain = True, result = False\<rparr>)"
  by (simp add: classify_def isSimpleResponse.simps findVariableNodeValue_def ex_scope_def
      createResponse_def isString_def field_def bindE_def)

text \<open>
  Claim C8 as amended. \<^verbatim>\<open>classify\<close> answers \<^verbatim>\<open>{certain: false, result: false}\<close> for
  every call, member access and spread element and for every identifier that
  \<^verbatim>\<open>findVariableNodeValue\<close> does not resolve; an identifier that is resolved gets the answer
  of its initialiser; no node of another type is ever answered with \<^verbatim>\<open>certain = false\<close>.
  It answers \<^verbatim>\<open>{certain: true, result: true}\<close> for every literal, every template literal
  and every binary expression one of whose two operands is a literal or a template literal.
\<close>

theorem classify_simple_response:
  "(ntype n1 = ''CallExpression'' \<or> ntype n1 = ''MemberExpression'' \<or> ntype n1 = ''SpreadElement''
      \<longrightarrow> classify sc n1 = Some (Inr (createResponse False False)))
 \<and> (ntype n2 = ''Identifier'' \<and> findVariableNodeValue sc n2 = Inr None
      \<longrightarrow> classify sc n2 = Some (Inr (createResponse False False)))
 \<and> (ntype n3 = ''Identifier'' \<and> findVariableNodeValue sc n3 = Inr (Some val)
      \<longrightarrow> classify sc n3 = classify sc val)
 \<and> (classify sc n4 = Some (Inr r) \<and> \<not> certain r
      \<longrightarrow> ntype n4 = ''CallExpression'' \<or> ntype n4 = ''MemberExpression''
          \<or> ntype n4 = ''SpreadElement'' \<or> ntype n4 = ''Identifier'')
 \<and> (ntype n5 = ''Literal'' \<or> ntype n5 = ''TemplateLiteral''
      \<longrightarrow> classify sc n5 = Some (Inr (createResponse True True)))
 \<and> (ntype l = ''Literal'' \<or> ntype r' = ''Literal'' \<or> ntype l = ''TemplateLiteral''
        \<or> ntype r' = ''TemplateLiteral''
      \<longrightarrow> classify sc (BinaryExpression l r') = Some (Inr (createResponse True True)))"
proof (intro conjI impI)
  assume "ntype n1 = ''CallExpression'' \<or> ntype n1 = ''MemberExpression'' \<or> ntype n1 = ''SpreadElement''"
  then show "classify sc n1 = Some (Inr (createResponse False False))"
    unfolding classify_def by (subst isSimpleResponse.simps) auto
next
  assume "ntype n2 = ''Identifier'' \<and> findVariableNodeValue sc n2 = Inr None"
  then show "classify sc n2 = Some (Inr (createResponse False False))"
    unfolding classify_def by (subst isSimpleResponse.simps) simp
next
  assume "ntype n3 = ''Identifier'' \<and> findVariableNodeValue sc n3 = Inr (Some val)"
  then show "classify sc n3 = classify sc val"
    unfolding classify_def by (subst isSimpleResponse.simps) simp
next
  assume a: "classify sc n4 = Some (Inr r) \<and> \<not> certain r"
  show "ntype n4 = ''CallExpression'' \<or> ntype n4 = ''MemberExpression''
          \<or> ntype n4 = ''SpreadElement'' \<or> ntype n4 = ''Identifier''"
  proof (rule ccontr)
    assume n: "\<not> ?thesis"
    have "isSimpleResponse sc n4 = Some (Inr r)" using a by (simp add: classify_def)
    then have "certain r" using n
      by (subst (asm) isSimpleResponse.simps)
         (auto simp: createResponse_def split: if_splits option.splits sum.splits)
    with a show False by simp
  qed
next
  assume "ntype n5 = ''Literal'' \<or> ntype n5 = ''TemplateLiteral''"
  then show "classify sc n5 = Some (Inr (createResponse True True))"
    unfolding classify_def by (subst isSimpleResponse.simps) (auto simp: isString_def)
next
  assume "ntype l = ''Literal'' \<or> ntype r' = ''Literal'' \<or> ntype l = ''TemplateLiteral''
        \<or> ntype r' = ''TemplateLiteral''"
  then show "classify sc (BinaryExpression l r') = Some (Inr (createResponse True True))"
    unfolding classify_def
    by (subst isSimpleResponse.simps) (auto simp: isString_def field_def bindE_def)
qed


theorem classify_simple_response_witness:
  "classify ex_scope (CallExpression (Identifier ''foo'') []) = Some (Inr \<lparr>certain = False, result = False\<rparr>)
 \<and> classify ex_scope (Identifier ''zz'') = Some (Inr \<lparr>certain = False, result = False\<rparr>)
 \<and> classify ex_scope (Identifier ''a'') = classify ex_scope (CallExpression (Identifier ''foo'') [])
 \<and> ntype (Identifier ''a'') = ''Identifier''
 \<and> classify ex_scope Literal = Some (Inr \<lparr>certain = True, result = True\<rparr>)
 \<and> classify ex_scope (BinaryExpression Literal (Identifier ''b'')) = Some (Inr \<lparr>certain = True, result = True\<rparr>)"
  using classify_simple_response [where ?n1.0 = "CallExpression (Identifier ''foo'') []"
      and sc = ex_scope and ?n2.0 = "Identifier ''zz''" and ?n3.0 = "Identifier ''a''"
      and val = "CallExpression (Identifier ''foo'') []" and ?n4.0 = "Identifier ''a''"
      and r = "\<lparr>certain = False, result = False\<rparr>" and ?n5.0 = Literal and l = Literal
      and r' = "Identifier ''b''"]
  by (simp add: findVariableNodeValue_def ex_scope_def createResponse_def)

section \<open>Recognising intent handlers\<close>

text \<open>
  Claim C9 says that \<^verbatim>\<open>isNodeIntentHandler\<close> returns false for every call whose last
  argument is a literal and for every call with two arguments whose second argument is an
  identifier. The function is documented to return a boolean, and the rules and the tests
  call it on calls of any shape. For a call of the second kind whose receiver is not an
  identifier it does not answer: it passes the receiver to \<^verbatim>\<open>findVariableNodeValue\<close>
  without looking at its type, and that function throws for a node that is not an
  identifier. So for \<^verbatim>\<open>a.b.intent('x', func)\<close> the answer is an error and not false; and
  in \<^verbatim>\<open>fetch(url).then((r) => r.json(), onError)\<close> the call is the parent of the arrow
  function, whose listener asks \<^verbatim>\<open>isNodeIntentHandler\<close> about it, and the pass of the
  rule over the file ends with that error.
\<close>

theorem intent_handler_identifier_argument_raises:
  "isNodeIntentHandler ex_scope
     (Some (CallExpression
              (MemberExpression (MemberExpression (Identifier ''a'') (Identifier ''b''))
                 (Identifier ''intent''))
              [Literal, Identifier ''func''])) = Inl ExpectedIdentifier
 \<and> atMostTwo_lint
     [OnNode \<lparr>ctx = \<lparr>getAncestors = [], getScope = ex_scope\<rparr>,
              selector = ''ArrowFunctionExpression'',
              visited = ex_node 7 ''ArrowFunctionExpression'',
              parentOf = Some (CallExpression
                (MemberExpression (CallExpression (Identifier ''fetch'') [Identifier ''url''])
                   (Identifier ''then''))
                [OtherNode (Abs_otherType ''ArrowFunctionExpression''),
                 Identifier ''onError''])\<rparr>]
     count_new = Some (Inl ExpectedIdentifier)"
  by (simp add: isNodeIntentHandler_def field_def bindE_def lastOf_def findVariableNodeValue_def
      atMostTwo_listener_def accountListeners_def functionListeners_def)

text \<open>
  Where the predicate does answer, it answers as the claim says: false for every call whose
  last argument is a literal, and for every call with two arguments whose second argument
  is an identifier and whose callee is either no member expression or a member expression
  with an identifier as receiver, whatever the receiver resolves to (a \<^verbatim>\<open>dialogflow()\<close>
  or \<^verbatim>\<open>actionssdk()\<close> application included); for no call with an identifier as second of
  two arguments does it return true. A handler given by name is a function declared
  elsewhere: the listeners of both rules for a function declaration push its frame under
  the plain label, without asking the predicate.
\<close>

lemma intent_handler_not_inline:
  "(lastOf (Some args1) = Some a \<and> ntype a = ''Literal''
      \<longrightarrow> isNodeIntentHandler sc (Some (CallExpression cal1 args1)) = Inr False)
 \<and> (ntype cal2 \<noteq> ''MemberExpression'' \<or> (\<exists>ob p. cal2 = MemberExpression ob p \<and> ntype ob = ''Identifier'')
      \<longrightarrow> isNodeIntentHandler sc (Some (CallExpression cal2 [x, Identifier f])) = Inr False)
 \<and> isNodeIntentHandler sc (Some (CallExpression cal3 [y, Identifier g])) \<noteq> Inr True"
proof (intro conjI impI)
  assume "lastOf (Some args1) = Some a \<and> ntype a = ''Literal''"
  then show "isNodeIntentHandler sc (Some (CallExpression cal1 args1)) = Inr False"
    by (simp add: isNodeIntentHandler_def field_def bindE_def)
next
  assume "ntype cal2 \<noteq> ''MemberExpression'' \<or> (\<exists>ob p. cal2 = MemberExpression ob p \<and> ntype ob = ''Identifier'')"
  then show "isNodeIntentHandler sc (Some (CallExpression cal2 [x, Identifier f])) = Inr False"
    by (auto simp: isNodeIntentHandler_def field_def bindE_def lastOf_def isActionsApp_def
        findVariableNodeValue_def callee_of_call split: option.splits)
next
  show "isNodeIntentHandler sc (Some (CallExpression cal3 [y, Identifier g])) \<noteq> Inr True"
    by (auto simp: isNodeIntentHandler_def field_def bindE_def lastOf_def split: option.splits sum.splits)
qed

lemma intent_handler_not_inline_examples:
  "isNodeIntentHandler ex_scope
     (Some (CallExpression (MemberExpression (Identifier ''app'') (Identifier ''intent''))
              [Literal, Literal])) = Inr False
 \<and> isNodeIntentHandler ex_scope
     (Some (CallExpression (MemberExpression (Identifier ''app'') (Identifier ''intent''))
              [Literal, Identifier ''func''])) = Inr False
 \<and> isActionsApp (Some (CallExpression (Identifier ''dialogflow'') [])) = Inr True"
  using intent_handler_not_inline [where ?args1.0 = "[Literal, Literal]" and a = Literal
      and sc = ex_scope and ?cal1.0 = "MemberExpression (Identifier ''app'') (Identifier ''intent'')"
      and ?cal2.0 = "MemberExpression (Identifier ''app'') (Identifier ''intent'')"
      and x = Literal and f = "''func''"]
  by (simp add: lastOf_def isActionsApp_def field_def bindE_def)

lemma declared_function_is_not_marked:
  assumes "selector v = ''FunctionDeclaration''"
  shows "atMostTwo_listener v m = Inr (count_enterScope ''FunctionDeclaration'' m)"
    and "mustReturn_listener v pm = presence_enterScope ''FunctionDeclaration'' pm"
  using assms
  by (simp_all add: atMostTwo_listener_def accountListeners_def count_account_def
      mustReturn_listener_def mustReturn_accountListeners_def presence_account_def)

text \<open>
  Claim C10. When the callee of the examined call is a member expression whose receiver is
  not an identifier, and the last argument of the call is not a literal (or there is no
  argument), \<^verbatim>\<open>isNodeIntentHandler\<close> raises the error with which
  \<^verbatim>\<open>findVariableNodeValue\<close> rejects a node that is not an identifier. The listeners of
  both rules for function expressions and arrow functions ask \<^verbatim>\<open>isNodeIntentHandler\<close>
  about the parent of the function first, so with such a call as parent the listener raises
  that error and the traversal ends with it.
\<close>

theorem intent_handler_raises_on_non_identifier_receiver:
  assumes "ntype ob \<noteq> ''Identifier''"
    and "\<forall>a. lastOf (Some args) = Some a \<longrightarrow> ntype a \<noteq> ''Literal''"
    and "selector v \<in> set functionListeners"
    and "parentOf v = Some (CallExpression (MemberExpression ob p) args)"
  shows "findVariableNodeValue sc ob = Inl ExpectedIdentifier
       \<and> isNodeIntentHandler sc (Some (CallExpression (MemberExpression ob p) args))
           = Inl ExpectedIdentifier
       \<and> atMostTwo_listener v m = Inl ExpectedIdentifier
       \<and> atMostTwo_lint (OnNode v # vs) m = Some (Inl ExpectedIdentifier)
       \<and> mustReturn_listener v pm = Inl ExpectedIdentifier"
proof -
  have h: "\<And>sc. isNodeIntentHandler sc (Some (CallExpression (MemberExpression ob p) args))
           = Inl ExpectedIdentifier"
    using assms(1,2)
    by (auto simp: isNodeIntentHandler_def field_def bindE_def findVariableNodeValue_def
        split: option.splits)
  have a: "selector v \<notin> set accountListeners" "selector v \<notin> set mustReturn_accountListeners"
    using assms(3) by (auto simp: functionListeners_def accountListeners_def mustReturn_accountListeners_def)
  show ?thesis
    using h a assms(1,3,4)
    by (simp add: atMostTwo_listener_def mustReturn_listener_def bindE_def
        findVariableNodeValue_def)
qed

theorem intent_handler_raises_on_non_identifier_receiver_witness:
  "findVariableNodeValue ex_scope (CallExpression (Identifier ''foo'') []) = Inl ExpectedIdentifier
  \<and> isNodeIntentHandler ex_scope
     (Some (CallExpression (MemberExpression (CallExpression (Identifier ''foo'') []) (Identifier ''bar''))
        [Identifier ''cb''])) = Inl ExpectedIdentifier
  \<and> atMostTwo_lint
       [OnNode \<lparr>ctx = \<lparr>getAncestors = [], getScope = ex_scope\<rparr>, selector = ''FunctionExpression'',
         visited = ex_node 7 ''FunctionExpression'',
         parentOf = Some (CallExpression (MemberExpression (CallExpression (Identifier ''foo'') []) (Identifier ''bar''))
        [Identifier ''cb''])\<rparr>] count_new = Some (Inl ExpectedIdentifier)"
  using intent_handler_raises_on_non_identifier_receiver [where ob = "CallExpression (Identifier ''foo'') []"
      and args = "[Identifier ''cb'']" and p = "Identifier ''bar''" and sc = ex_scope
      and v = "\<lparr>ctx = \<lparr>getAncestors = [], getScope = ex_scope\<rparr>, selector = ''FunctionExpression'',
         visited = ex_node 7 ''FunctionExpression'',
         parentOf = Some (CallExpression (MemberExpression (CallExpression (Identifier ''foo'') []) (Identifier ''bar''))
        [Identifier ''cb''])\<rparr>" and m = count_new and vs = "[]"]
  by (simp add: lastOf_def functionListeners_def bindE_def)

end
